theory Spec2Isabelle
  imports Complex_Main "HOL-Library.Monad_Syntax" "HOL-Library.Multiset"
begin

unbundle bit_operations_syntax

section \<open>Values\<close>

text \<open>
  The numbers of a row are numpy \<open>float64\<close> values. Their type is the type variable
  \<open>'f\<close> throughout: the merge and the gate never compute with them. A numeric attribute
  of the upstream \<open>Candle\<close> is a number, given by the value \<open>float\<close> makes of it, or
  \<open>None\<close>. Python's \<open>float(None)\<close> raises \<open>TypeError\<close>; \<open>None\<close> here is the raise.
\<close>

datatype 'f raw_num = Num 'f | PyNone

fun py_float :: "'f raw_num \<Rightarrow> 'f option" where
  "py_float (Num x) = Some x"
| "py_float PyNone = None"

text \<open>\<open>float(x) if x is not None else None\<close>: never raises.\<close>

fun py_float_opt :: "'f raw_num \<Rightarrow> 'f option" where
  "py_float_opt (Num x) = Some x"
| "py_float_opt PyNone = None"

section \<open>Event flags\<close>

definition TX_PENDING :: int where "TX_PENDING = 0x1"
definition REMOVE_EVENT :: int where "REMOVE_EVENT = 0x2"
definition SNAPSHOT_BEGIN :: int where "SNAPSHOT_BEGIN = 0x4"
definition SNAPSHOT_END :: int where "SNAPSHOT_END = 0x8"
definition SNAPSHOT_SNIP :: int where "SNAPSHOT_SNIP = 0x10"
definition SNAPSHOT_MODE :: int where "SNAPSHOT_MODE = 0x40"

section \<open>Candles and rows\<close>

text \<open>The upstream event, an object of the library class \<open>Candle\<close>.\<close>

record 'f candle =
  candle_eventSymbol :: string
  candle_eventTime :: int
  candle_eventFlags :: int
  candle_index :: int
  candle_time :: int
  candle_sequence :: int
  candle_count :: int
  candle_open :: "'f raw_num"
  candle_high :: "'f raw_num"
  candle_low :: "'f raw_num"
  candle_close :: "'f raw_num"
  candle_volume :: "'f raw_num"
  candle_vwap :: "'f raw_num"
  candle_bidVolume :: "'f raw_num"
  candle_askVolume :: "'f raw_num"
  candle_impVolatility :: "'f raw_num"
  candle_openInterest :: "int option"

text \<open>
  One row of the frame \<open>df\<close>, with the columns of \<open>data_row\<close>. A \<open>datetime\<close> is an
  integer (a count of microseconds): only its order and equality are used.
\<close>

type_synonym datetime = int

record 'f data_row =
  row_eventSymbol :: string
  row_eventTime :: int
  row_eventFlags :: int
  row_index :: int
  row_time :: datetime
  row_sequence :: int
  row_count :: int
  row_open :: 'f
  row_high :: 'f
  row_low :: 'f
  row_close :: 'f
  row_volume :: 'f
  row_vwap :: 'f
  row_bidVolume :: "'f option"
  row_askVolume :: "'f option"
  row_impVolatility :: "'f option"
  row_openInterest :: "int option"

text \<open>What \<open>print\<close> writes: a line of text, or the repr of a candle.\<close>

datatype 'f printed = Text string | Repr "'f candle"

text \<open>
  The body of the \<open>try\<close> of \<open>candle_to_dataframe\<close>: the dictionary \<open>data_row\<close>, or
  \<open>None\<close> when building it raises. The library call
  \<open>datetime.fromtimestamp(candle.time / 1000)\<close> is the parameter \<open>fromtimestamp\<close>,
  from the candle's milliseconds to the datetime, \<open>None\<close> where it raises.
\<close>

definition build_data_row ::
    "(int \<Rightarrow> datetime option) \<Rightarrow> 'f candle \<Rightarrow> 'f data_row option" where
  "build_data_row fromtimestamp c = do {
     t \<leftarrow> fromtimestamp (candle_time c);
     op \<leftarrow> py_float (candle_open c);
     hi \<leftarrow> py_float (candle_high c);
     lo \<leftarrow> py_float (candle_low c);
     cl \<leftarrow> py_float (candle_close c);
     vo \<leftarrow> py_float (candle_volume c);
     vw \<leftarrow> py_float (candle_vwap c);
     Some \<lparr> row_eventSymbol = candle_eventSymbol c,
            row_eventTime = candle_eventTime c,
            row_eventFlags = candle_eventFlags c,
            row_index = candle_index c,
            row_time = t,
            row_sequence = candle_sequence c,
            row_count = candle_count c,
            row_open = op, row_high = hi, row_low = lo, row_close = cl,
            row_volume = vo, row_vwap = vw,
            row_bidVolume = py_float_opt (candle_bidVolume c),
            row_askVolume = py_float_opt (candle_askVolume c),
            row_impVolatility = py_float_opt (candle_impVolatility c),
            row_openInterest = candle_openInterest c \<rparr>
   }"

text \<open>
  \<open>candle_to_dataframe\<close>: what it prints and the frame it returns, a frame of one row
  or, after the bare \<open>except\<close>, the empty frame.
\<close>

definition candle_to_dataframe ::
    "(int \<Rightarrow> datetime option) \<Rightarrow> 'f candle \<Rightarrow> 'f printed list \<times> 'f data_row list" where
  "candle_to_dataframe fromtimestamp c =
     (case build_data_row fromtimestamp c of
        Some r \<Rightarrow> ([], [r])
      | None \<Rightarrow> ([Text ''EXCEPT: candle_to_dataframe'', Repr c], []))"

section \<open>Frames\<close>

text \<open>\<open>pd.concat([df, df_new], axis=0, ignore_index=True)\<close>\<close>

definition concat_df :: "'f data_row list \<Rightarrow> 'f data_row list \<Rightarrow> 'f data_row list" where
  "concat_df a b = a @ b"

text \<open>
  \<open>df.drop_duplicates(subset=['time'], keep='last')\<close>: a row stays when no later row has
  its time; the order of the rows is kept.
\<close>

fun drop_duplicates :: "'f data_row list \<Rightarrow> 'f data_row list" where
  "drop_duplicates [] = []"
| "drop_duplicates (x # xs) =
     (if row_time x \<in> row_time ` set xs then drop_duplicates xs
      else x # drop_duplicates xs)"

text \<open>
  \<open>df.sort_values(by=['time'])\<close>. The source sorts a frame without duplicate times,
  where every sorting algorithm gives the same result.
\<close>

definition sort_values :: "'f data_row list \<Rightarrow> 'f data_row list" where
  "sort_values xs = sort_key row_time xs"

section \<open>The indicator\<close>

text \<open>
  The arithmetic of numpy on \<open>float64\<close> arrays is library code. The three operations
  that \<open>vwap\<close> uses, each on two values, are a parameter: the product, the sum and the
  quotient. The section on binary64 below gives them as IEEE 754 defines them.
\<close>

record 'f numpy =
  np_mul :: "'f \<Rightarrow> 'f \<Rightarrow> 'f"
  np_add :: "'f \<Rightarrow> 'f \<Rightarrow> 'f"
  np_div :: "'f \<Rightarrow> 'f \<Rightarrow> 'f"

text \<open>
  numpy's \<open>cumsum\<close>: the running sums from the left, one addition for each further
  element, the first one the first element.
\<close>

fun cumsum_from :: "('f \<Rightarrow> 'f \<Rightarrow> 'f) \<Rightarrow> 'f \<Rightarrow> 'f list \<Rightarrow> 'f list" where
  "cumsum_from add a [] = []"
| "cumsum_from add a (x # xs) = add a x # cumsum_from add (add a x) xs"

fun cumsum :: "('f \<Rightarrow> 'f \<Rightarrow> 'f) \<Rightarrow> 'f list \<Rightarrow> 'f list" where
  "cumsum add [] = []"
| "cumsum add (x # xs) = x # cumsum_from add x xs"

text \<open>
  \<open>vwap\<close>: the frame with the column \<open>periodic_vwap\<close> added, each row paired with its
  value of \<open>(p * q).cumsum() / q.cumsum()\<close>.
\<close>

definition vwap :: "'f numpy \<Rightarrow> 'f data_row list \<Rightarrow> ('f data_row \<times> 'f) list" where
  "vwap np df =
     (let q = map row_volume df;
          p = map row_vwap df
      in zip df (map2 (np_div np)
                   (cumsum (np_add np) (map2 (np_mul np) p q))
                   (cumsum (np_add np) q)))"

text \<open>
  The indicator in the words of the specification, for comparison: at position \<open>i\<close>,
  the sum over the rows \<open>0..i\<close> of volume times vwap, divided by the sum of their
  volumes, the sums taken from the left. There is no value where there is no row.
\<close>

fun sum_left :: "('f \<Rightarrow> 'f \<Rightarrow> 'f) \<Rightarrow> 'f list \<Rightarrow> 'f option" where
  "sum_left add [] = None"
| "sum_left add (x # xs) = Some (foldl add x xs)"

definition spec_indicator :: "'f numpy \<Rightarrow> 'f data_row list \<Rightarrow> nat \<Rightarrow> 'f option" where
  "spec_indicator np rows i =
     (if i < length rows then do {
        n \<leftarrow> sum_left (np_add np)
               (map (\<lambda>r. np_mul np (row_volume r) (row_vwap r)) (take (Suc i) rows));
        d \<leftarrow> sum_left (np_add np) (map row_volume (take (Suc i) rows));
        Some (np_div np n d)
      } else None)"

section \<open>The polling loop\<close>

text \<open>
  The state of \<open>get_candle_async\<close>: the locals \<open>df\<close> and \<open>update_graph\<close>, what has been
  printed, the frames handed to \<open>mpf.plot\<close> and drawn (the latest last, each the
  \<open>disp_df\<close> of its publish), and whether the streamer has been closed.
\<close>

record 'f loop_state =
  df :: "'f data_row list"
  update_graph :: bool
  stdout :: "'f printed list"
  drawn :: "('f data_row \<times> 'f) list list"
  closed :: bool

definition initial_state :: "'f loop_state" where
  "initial_state =
     \<lparr> df = [], update_graph = False, stdout = [], drawn = [], closed = False \<rparr>"

text \<open>
  The body of the \<open>try\<close> once \<open>wait_for\<close> has returned a candle, in its three
  blocks. First the two flag tests on \<open>update_graph\<close>, in the order of the source.
\<close>

definition snapshot_gate :: "int \<Rightarrow> bool \<Rightarrow> bool" where
  "snapshot_gate flags g =
     (let g1 = (if flags AND SNAPSHOT_BEGIN \<noteq> 0 then False else g)
      in if flags AND SNAPSHOT_END \<noteq> 0 then True else g1)"

text \<open>
  Then the merge: a candle that is not a remove event is converted, and a frame that is
  not empty is appended, deduplicated and sorted. The result is what was printed and the
  new \<open>df\<close>.
\<close>

definition merge_candle ::
    "(int \<Rightarrow> datetime option) \<Rightarrow> 'f candle \<Rightarrow> 'f data_row list \<Rightarrow>
     'f printed list \<times> 'f data_row list" where
  "merge_candle fromtimestamp c d =
     (if candle_eventFlags c AND REMOVE_EVENT = 0 then
        (let (out, df_new) = candle_to_dataframe fromtimestamp c
         in (out,
             if df_new \<noteq> [] then sort_values (drop_duplicates (concat_df d df_new))
             else d))
      else ([], d))"

text \<open>
  Last the publish, under \<open>update_graph & (not df.empty)\<close>: the copy of \<open>df\<close> with its
  indicator is plotted and drawn. The calls of the plotting library are taken to return;
  the two labels, texts formatted from the last row, are left out.
\<close>

definition process_candle ::
    "'f numpy \<Rightarrow> (int \<Rightarrow> datetime option) \<Rightarrow> 'f candle \<Rightarrow> 'f loop_state \<Rightarrow> 'f loop_state" where
  "process_candle np fromtimestamp c s =
     (let g = snapshot_gate (candle_eventFlags c) (update_graph s);
          (out, df') = merge_candle fromtimestamp c (df s);
          s' = s \<lparr> df := df', update_graph := g, stdout := stdout s @ out \<rparr>
      in if g \<and> df' \<noteq> [] then s' \<lparr> drawn := drawn s' @ [vwap np df'] \<rparr> else s')"

text \<open>
  What one turn of \<open>while self.run\<close> meets: \<open>self.run\<close> is false at the test, or
  \<open>wait_for\<close> raises \<open>TimeoutError\<close>, or it returns a candle. The flag is set by
  \<open>quit\<close> from outside the loop, so its value at each test is an input.
\<close>

datatype 'f tick = Quit | Timeout | Event "'f candle"

text \<open>
  The loop over the ticks it meets. It leaves on \<open>Quit\<close> and closes the streamer; on a
  timeout the handler only yields.
\<close>

fun get_candle_async ::
    "'f numpy \<Rightarrow> (int \<Rightarrow> datetime option) \<Rightarrow> 'f tick list \<Rightarrow> 'f loop_state \<Rightarrow>
     'f loop_state" where
  "get_candle_async np fromtimestamp [] s = s"
| "get_candle_async np fromtimestamp (Quit # ticks) s = s \<lparr> closed := True \<rparr>"
| "get_candle_async np fromtimestamp (Timeout # ticks) s =
     get_candle_async np fromtimestamp ticks s"
| "get_candle_async np fromtimestamp (Event c # ticks) s =
     get_candle_async np fromtimestamp ticks (process_candle np fromtimestamp c s)"

section \<open>The arithmetic of binary64\<close>

text \<open>
  A \<open>float64\<close> as IEEE 754 has it: a finite real (zero is plus zero), minus zero, the
  two infinities and NaN. The finite reals that are values of the format are those that
  rounding leaves as they are.
\<close>

datatype float64 = Finite real | NegZero | PosInf | NegInf | NaN

text \<open>The nearest integer, a tie going to the even one.\<close>

definition rne :: "real \<Rightarrow> int" where
  "rne y =
     (let f = \<lfloor>y\<rfloor>; d = y - of_int f
      in if d < 1 / 2 then f else if 1 / 2 < d then f + 1
         else if even f then f else f + 1)"

text \<open>
  The exponent of a magnitude \<open>a\<close>: the greatest \<open>e\<close> from -1022 to 1023 with
  \<open>2 ^ e \<le> a\<close>, and -1022 when there is none (the subnormal range), found by
  bisection.
\<close>

fun exp_search :: "nat \<Rightarrow> int \<Rightarrow> int \<Rightarrow> real \<Rightarrow> int" where
  "exp_search 0 lo hi a = lo"
| "exp_search (Suc n) lo hi a =
     (let mid = (lo + hi + 1) div 2
      in if 2 powi mid \<le> a then exp_search n mid hi a
         else exp_search n lo (mid - 1) a)"

definition exponent :: "real \<Rightarrow> int" where
  "exponent a = exp_search 11 (- 1022) 1023 a"

definition signed_zero :: "bool \<Rightarrow> float64" where
  "signed_zero neg = (if neg then NegZero else Finite 0)"

definition signed_inf :: "bool \<Rightarrow> float64" where
  "signed_inf neg = (if neg then NegInf else PosInf)"

text \<open>
  The least positive value of the format, and the bound at which a rounded magnitude
  overflows.
\<close>

definition least_positive :: real where
  "least_positive = 2 powi (- 1074)"

definition overflow_bound :: real where
  "overflow_bound = 2 powi 1024"

text \<open>
  The unit in the last place of the 53 bit significand at a magnitude, and the
  magnitude rounded to the nearest multiple of it, ties to even.
\<close>

definition ulp :: "real \<Rightarrow> real" where
  "ulp a = 2 powi (exponent a - 52)"

definition round_mag :: "real \<Rightarrow> real" where
  "round_mag a = of_int (rne (a / ulp a)) * ulp a"

text \<open>
  Rounding a real to the nearest value of the format: the magnitude is rounded, at
  \<open>2 ^ 1024\<close> it overflows to an infinity, and a result of zero keeps the sign.
\<close>

definition round64 :: "real \<Rightarrow> float64" where
  "round64 x =
     (let m = round_mag \<bar>x\<bar>
      in if overflow_bound \<le> m then signed_inf (x < 0)
         else if m = 0 then signed_zero (x < 0)
         else Finite (if x < 0 then - m else m))"

fun is_float64 :: "float64 \<Rightarrow> bool" where
  "is_float64 (Finite x) = (round64 x = Finite x)"
| "is_float64 v = True"

text \<open>
  A finite number is grained when it is zero or its magnitude is at least the least
  positive value: every value of the format is.
\<close>

fun grained :: "float64 \<Rightarrow> bool" where
  "grained (Finite x) = (x = 0 \<or> least_positive \<le> \<bar>x\<bar>)"
| "grained v = True"

fun is_nan :: "float64 \<Rightarrow> bool" where
  "is_nan NaN = True"
| "is_nan v = False"

fun is_inf :: "float64 \<Rightarrow> bool" where
  "is_inf PosInf = True"
| "is_inf NegInf = True"
| "is_inf v = False"

text \<open>\<open>x == 0\<close>: both zeros are zero.\<close>

fun is_zero :: "float64 \<Rightarrow> bool" where
  "is_zero (Finite x) = (x = 0)"
| "is_zero NegZero = True"
| "is_zero v = False"

text \<open>\<open>x >= 0\<close>: false of NaN, true of minus zero.\<close>

fun is_nonneg :: "float64 \<Rightarrow> bool" where
  "is_nonneg (Finite x) = (0 \<le> x)"
| "is_nonneg NegZero = True"
| "is_nonneg PosInf = True"
| "is_nonneg v = False"

text \<open>The sign bit, and the real value of a finite number.\<close>

fun sign_bit :: "float64 \<Rightarrow> bool" where
  "sign_bit (Finite x) = (x < 0)"
| "sign_bit NegZero = True"
| "sign_bit NegInf = True"
| "sign_bit v = False"

fun real_of :: "float64 \<Rightarrow> real" where
  "real_of (Finite x) = x"
| "real_of v = 0"

text \<open>
  The sum. Infinities of opposite sign give NaN. An exact sum of zero is plus zero,
  but for minus zero plus minus zero; any other sum is rounded.
\<close>

definition add64 :: "float64 \<Rightarrow> float64 \<Rightarrow> float64" where
  "add64 x y =
     (if is_nan x \<or> is_nan y then NaN
      else if is_inf x \<and> is_inf y then (if x = y then x else NaN)
      else if is_inf x then x
      else if is_inf y then y
      else if x = NegZero \<and> y = NegZero then NegZero
      else if real_of x + real_of y = 0 then Finite 0
      else round64 (real_of x + real_of y))"

text \<open>
  The product. An infinity times zero is NaN. The sign of the result is the exclusive
  or of the signs.
\<close>

definition mul64 :: "float64 \<Rightarrow> float64 \<Rightarrow> float64" where
  "mul64 x y =
     (if is_nan x \<or> is_nan y then NaN
      else if is_inf x \<or> is_inf y then
        (if is_zero x \<or> is_zero y then NaN else signed_inf (sign_bit x \<noteq> sign_bit y))
      else if is_zero x \<or> is_zero y then signed_zero (sign_bit x \<noteq> sign_bit y)
      else round64 (real_of x * real_of y))"

text \<open>
  The quotient. Zero by zero and infinity by infinity are NaN; any other number by
  zero is an infinity. numpy warns there, it does not raise.
\<close>

definition div64 :: "float64 \<Rightarrow> float64 \<Rightarrow> float64" where
  "div64 x y =
     (if is_nan x \<or> is_nan y then NaN
      else if is_inf x then
        (if is_inf y then NaN else signed_inf (sign_bit x \<noteq> sign_bit y))
      else if is_inf y then signed_zero (sign_bit x \<noteq> sign_bit y)
      else if is_zero y then
        (if is_zero x then NaN else signed_inf (sign_bit x \<noteq> sign_bit y))
      else if is_zero x then signed_zero (sign_bit x \<noteq> sign_bit y)
      else round64 (real_of x / real_of y))"

definition float64_ops :: "float64 numpy" where
  "float64_ops = \<lparr> np_mul = mul64, np_add = add64, np_div = div64 \<rparr>"

section \<open>Sample data\<close>

text \<open>
  A candle of the symbol SPY with the given flags, time, price (its open, high, low and
  close), volume and vwap, and the row it converts to when the timestamp conversion is
  \<open>Some\<close>; the same with the vwap as the price; and a state holding a store.
\<close>

definition sample_candle ::
    "int \<Rightarrow> int \<Rightarrow> 'f raw_num \<Rightarrow> 'f raw_num \<Rightarrow> 'f raw_num \<Rightarrow> 'f candle" where
  "sample_candle flags t cl vo vw =
     \<lparr> candle_eventSymbol = ''SPY'', candle_eventTime = 0, candle_eventFlags = flags,
       candle_index = 0, candle_time = t, candle_sequence = 0, candle_count = 1,
       candle_open = cl, candle_high = cl, candle_low = cl, candle_close = cl,
       candle_volume = vo, candle_vwap = vw,
       candle_bidVolume = PyNone, candle_askVolume = PyNone,
       candle_impVolatility = PyNone, candle_openInterest = None \<rparr>"

definition sample_row :: "int \<Rightarrow> int \<Rightarrow> 'f \<Rightarrow> 'f \<Rightarrow> 'f \<Rightarrow> 'f data_row" where
  "sample_row flags t cl vo vw =
     \<lparr> row_eventSymbol = ''SPY'', row_eventTime = 0, row_eventFlags = flags,
       row_index = 0, row_time = t, row_sequence = 0, row_count = 1,
       row_open = cl, row_high = cl, row_low = cl, row_close = cl,
       row_volume = vo, row_vwap = vw,
       row_bidVolume = None, row_askVolume = None,
       row_impVolatility = None, row_openInterest = None \<rparr>"

definition candle_at :: "int \<Rightarrow> int \<Rightarrow> 'f \<Rightarrow> 'f \<Rightarrow> 'f candle" where
  "candle_at flags t vo vw = sample_candle flags t (Num vw) (Num vo) (Num vw)"

definition row_at :: "int \<Rightarrow> int \<Rightarrow> 'f \<Rightarrow> 'f \<Rightarrow> 'f data_row" where
  "row_at flags t vo vw = sample_row flags t vw vo vw"

definition state_with :: "'f data_row list \<Rightarrow> bool \<Rightarrow> 'f loop_state" where
  "state_with d g = initial_state \<lparr> df := d, update_graph := g \<rparr>"

section \<open>The loop body, field by field\<close>

lemma snapshot_gate_eq:
  "snapshot_gate flags g =
     (if flags AND SNAPSHOT_END \<noteq> 0 then True
      else if flags AND SNAPSHOT_BEGIN \<noteq> 0 then False else g)"
  by (simp add: snapshot_gate_def)

lemma merge_candle_remove:
  "candle_eventFlags c AND REMOVE_EVENT \<noteq> 0 \<Longrightarrow> merge_candle ft c d = ([], d)"
  by (simp add: merge_candle_def)

lemma merge_candle_decoded:
  "candle_eventFlags c AND REMOVE_EVENT = 0 \<Longrightarrow> build_data_row ft c = Some r \<Longrightarrow>
   merge_candle ft c d = ([], sort_values (drop_duplicates (d @ [r])))"
  by (simp add: merge_candle_def candle_to_dataframe_def concat_df_def)

lemma merge_candle_failed:
  "candle_eventFlags c AND REMOVE_EVENT = 0 \<Longrightarrow> build_data_row ft c = None \<Longrightarrow>
   merge_candle ft c d = ([Text ''EXCEPT: candle_to_dataframe'', Repr c], d)"
  by (simp add: merge_candle_def candle_to_dataframe_def)

lemma process_candle_update_graph:
  "update_graph (process_candle np ft c s) =
     snapshot_gate (candle_eventFlags c) (update_graph s)"
  by (simp add: process_candle_def Let_def split: prod.splits)

lemma process_candle_df: "df (process_candle np ft c s) = snd (merge_candle ft c (df s))"
  by (simp add: process_candle_def Let_def split: prod.splits)

lemma process_candle_stdout:
  "stdout (process_candle np ft c s) = stdout s @ fst (merge_candle ft c (df s))"
  by (simp add: process_candle_def Let_def split: prod.splits)

lemma process_candle_drawn:
  "drawn (process_candle np ft c s) =
     (if update_graph (process_candle np ft c s) \<and> df (process_candle np ft c s) \<noteq> []
      then drawn s @ [vwap np (df (process_candle np ft c s))] else drawn s)"
  by (simp add: process_candle_def Let_def split: prod.splits)

lemma process_candle_closed: "closed (process_candle np ft c s) = closed s"
  by (simp add: process_candle_def Let_def split: prod.splits)

lemma build_sample_candle:
  "build_data_row Some (sample_candle flags t (Num cl) (Num vo) (Num vw)) =
     Some (sample_row flags t cl vo vw)"
  by (simp add: build_data_row_def sample_candle_def sample_row_def)

lemma flags_sample_candle [simp]:
  "candle_eventFlags (sample_candle flags t cl vo vw) = flags"
  by (simp add: sample_candle_def)

lemma time_sample_row [simp]: "row_time (sample_row flags t cl vo vw) = t"
  by (simp add: sample_row_def)

lemma build_candle_at:
  "build_data_row Some (candle_at flags t vo vw) = Some (row_at flags t vo vw)"
  by (simp add: candle_at_def row_at_def build_sample_candle)

lemma flags_candle_at [simp]: "candle_eventFlags (candle_at flags t vo vw) = flags"
  by (simp add: candle_at_def)

lemma time_row_at [simp]: "row_time (row_at flags t vo vw) = t"
  by (simp add: row_at_def)

lemma state_with_fields [simp]:
  "df (state_with d g) = d" "update_graph (state_with d g) = g"
  "stdout (state_with d g) = []" "drawn (state_with d g) = []"
  by (simp_all add: state_with_def initial_state_def)

section \<open>Deduplication and sorting\<close>

lemma times_drop_duplicates: "row_time ` set (drop_duplicates xs) = row_time ` set xs"
  by (induction xs) auto

lemma distinct_times_drop_duplicates: "distinct (map row_time (drop_duplicates xs))"
  by (induction xs) (auto simp: times_drop_duplicates)

lemma drop_duplicates_id: "distinct (map row_time xs) \<Longrightarrow> drop_duplicates xs = xs"
  by (induction xs) auto

lemma drop_duplicates_snoc:
  "drop_duplicates (xs @ [r]) =
     filter (\<lambda>x. row_time x \<noteq> row_time r) (drop_duplicates xs) @ [r]"
proof (induction xs)
  case Nil
  show ?case by simp
next
  case (Cons x xs)
  show ?case
  proof (cases "row_time x = row_time r")
    case True
    then show ?thesis using Cons.IH by simp
  next
    case False
    then show ?thesis using Cons.IH by (simp add: image_Un)
  qed
qed

lemma sorted_times_sort_values: "sorted (map row_time (sort_values xs))"
  by (simp add: sort_values_def)

lemma distinct_times_sort_values:
  "distinct (map row_time (sort_values xs)) = distinct (map row_time xs)"
proof -
  have "mset (map row_time (sort_values xs)) = mset (map row_time xs)"
    by (simp add: sort_values_def)
  then show ?thesis by (rule mset_eq_imp_distinct_iff)
qed

lemma strictly_ascending_merge:
  "sorted_wrt (<) (map row_time (sort_values (drop_duplicates xs)))"
  by (simp add: strict_sorted_iff sorted_times_sort_values distinct_times_sort_values
        distinct_times_drop_duplicates)

lemma filter_time_merge:
  "filter (\<lambda>x. row_time x = row_time r) (sort_values (drop_duplicates (d @ [r]))) = [r]"
proof -
  have "filter (\<lambda>x. row_time x = row_time r) (drop_duplicates (d @ [r])) = [r]"
    by (simp add: drop_duplicates_snoc)
  then show ?thesis
    by (simp add: sort_values_def filter_sort)
qed

text \<open>Appending a row with a new time to an ascending frame and sorting.\<close>

lemma sort_values_insert:
  assumes "sorted_wrt (<) (map row_time ys)" and "row_time r \<notin> row_time ` set ys"
  shows "sort_values (ys @ [r]) =
           filter (\<lambda>x. row_time x < row_time r) ys @ [r] @
           filter (\<lambda>x. row_time r < row_time x) ys"
  using assms
proof (induction ys)
  case Nil
  show ?case by (simp add: sort_values_def)
next
  case (Cons y ys)
  have above: "\<forall>x\<in>set ys. row_time y < row_time x"
    using Cons.prems(1) by simp
  have IH: "sort_key row_time (ys @ [r]) =
              filter (\<lambda>x. row_time x < row_time r) ys @ [r] @
              filter (\<lambda>x. row_time r < row_time x) ys"
    using Cons.IH Cons.prems by (simp add: sort_values_def)
  have neq: "row_time y \<noteq> row_time r"
    using Cons.prems(2) by auto
  show ?case
  proof (cases "row_time y < row_time r")
    case True
    have "\<forall>x\<in>set (filter (\<lambda>x. row_time x < row_time r) ys @ [r] @
              filter (\<lambda>x. row_time r < row_time x) ys). row_time y \<le> row_time x"
      using above True by auto
    then have "insort_key row_time y
                 (filter (\<lambda>x. row_time x < row_time r) ys @ [r] @
                  filter (\<lambda>x. row_time r < row_time x) ys) =
               y # (filter (\<lambda>x. row_time x < row_time r) ys @ [r] @
                  filter (\<lambda>x. row_time r < row_time x) ys)"
      by (rule insort_is_Cons)
    then show ?thesis using True IH by (simp add: sort_values_def)
  next
    case False
    then have lt: "row_time r < row_time y" using neq by simp
    have none: "filter (\<lambda>x. row_time x < row_time r) ys = []"
      using above lt by (auto simp: filter_empty_conv)
    have all: "filter (\<lambda>x. row_time r < row_time x) ys = ys"
      using above lt by (auto simp: filter_id_conv)
    have "insort_key row_time y ys = y # ys"
      using above by (intro insort_is_Cons) auto
    then show ?thesis using False lt IH none all by (simp add: sort_values_def)
  qed
qed

lemma merge_strictly_ascending:
  assumes "sorted_wrt (<) (map row_time d)"
  shows "sort_values (drop_duplicates (d @ [r])) =
           filter (\<lambda>x. row_time x < row_time r) d @ [r] @
           filter (\<lambda>x. row_time r < row_time x) d"
proof -
  let ?ys = "filter (\<lambda>x. row_time x \<noteq> row_time r) d"
  have dist: "distinct (map row_time d)"
    using assms by (simp add: strict_sorted_iff)
  have dd: "drop_duplicates (d @ [r]) = ?ys @ [r]"
    by (simp add: drop_duplicates_snoc drop_duplicates_id [OF dist])
  have "sorted_wrt (\<lambda>x y. row_time x < row_time y) ?ys"
    using assms by (simp add: sorted_wrt_map sorted_wrt_filter)
  then have s: "sorted_wrt (<) (map row_time ?ys)"
    by (simp add: sorted_wrt_map)
  have n: "row_time r \<notin> row_time ` set ?ys" by auto
  have "sort_values (?ys @ [r]) =
          filter (\<lambda>x. row_time x < row_time r) ?ys @ [r] @
          filter (\<lambda>x. row_time r < row_time x) ?ys"
    using s n by (rule sort_values_insert)
  moreover have "filter (\<lambda>x. row_time x < row_time r) ?ys =
                 filter (\<lambda>x. row_time x < row_time r) d"
    by (auto intro: filter_cong)
  moreover have "filter (\<lambda>x. row_time r < row_time x) ?ys =
                 filter (\<lambda>x. row_time r < row_time x) d"
    by (auto intro: filter_cong)
  ultimately show ?thesis using dd by simp
qed

lemma process_candle_ascending:
  assumes "sorted_wrt (<) (map row_time (df s))"
  shows "sorted_wrt (<) (map row_time (df (process_candle np ft c s)))"
proof (cases "candle_eventFlags c AND REMOVE_EVENT = 0")
  case False
  then show ?thesis using assms by (simp add: process_candle_df merge_candle_remove)
next
  case True
  show ?thesis
  proof (cases "build_data_row ft c")
    case None
    then show ?thesis using True assms
      by (simp add: process_candle_df merge_candle_failed)
  next
    case (Some r)
    then show ?thesis using True
      by (simp add: process_candle_df merge_candle_decoded strictly_ascending_merge)
  qed
qed

lemma get_candle_async_ascending:
  "sorted_wrt (<) (map row_time (df s)) \<Longrightarrow>
   sorted_wrt (<) (map row_time (df (get_candle_async np ft ticks s)))"
proof (induction ticks arbitrary: s)
  case Nil
  then show ?case by simp
next
  case (Cons t ticks)
  show ?case
  proof (cases t)
    case Quit
    then show ?thesis using Cons.prems by simp
  next
    case Timeout
    then show ?thesis using Cons by simp
  next
    case (Event c)
    then show ?thesis using Cons by (simp add: process_candle_ascending)
  qed
qed

section \<open>The shape of the indicator\<close>

lemma length_cumsum_from: "length (cumsum_from add a xs) = length xs"
  by (induction xs arbitrary: a) simp_all

lemma length_cumsum: "length (cumsum add xs) = length xs"
  by (cases xs) (simp_all add: length_cumsum_from)

lemma length_vwap: "length (vwap np rows) = length rows"
  by (simp add: vwap_def Let_def length_cumsum)

lemma vwap_rows: "map fst (vwap np rows) = rows"
  by (simp add: vwap_def Let_def length_cumsum)

lemma vwap_values:
  "map snd (vwap np rows) =
     map2 (np_div np)
       (cumsum (np_add np) (map2 (np_mul np) (map row_vwap rows) (map row_volume rows)))
       (cumsum (np_add np) (map row_volume rows))"
  by (simp add: vwap_def Let_def length_cumsum)

lemma vwap_values_cong:
  assumes "map row_vwap xs = map row_vwap ys" and "map row_volume xs = map row_volume ys"
  shows "map snd (vwap np xs) = map snd (vwap np ys)"
  by (simp add: vwap_values assms)

lemma cumsum_from_nth:
  "i < length xs \<Longrightarrow> cumsum_from add a xs ! i = foldl add a (take (Suc i) xs)"
proof (induction xs arbitrary: a i)
  case Nil
  then show ?case by simp
next
  case (Cons x xs)
  show ?case
  proof (cases i)
    case 0
    then show ?thesis by simp
  next
    case (Suc j)
    then have "j < length xs" using Cons.prems by simp
    then show ?thesis using Cons.IH [of j "add a x"] Suc by simp
  qed
qed

lemma cumsum_nth:
  assumes "i < length xs"
  shows "sum_left add (take (Suc i) xs) = Some (cumsum add xs ! i)"
proof (cases xs)
  case Nil
  then show ?thesis using assms by simp
next
  case (Cons x ys)
  show ?thesis
  proof (cases i)
    case 0
    then show ?thesis using Cons by simp
  next
    case (Suc j)
    then have "j < length ys" using assms Cons by simp
    then show ?thesis using Cons Suc by (simp add: cumsum_from_nth)
  qed
qed

lemma vwap_nth:
  assumes "i < length rows"
  shows "vwap np rows ! i =
           (rows ! i,
            np_div np
              (cumsum (np_add np) (map (\<lambda>r. np_mul np (row_vwap r) (row_volume r)) rows) ! i)
              (cumsum (np_add np) (map row_volume rows) ! i))"
proof -
  have "map2 (np_mul np) (map row_vwap rows) (map row_volume rows) =
          map (\<lambda>r. np_mul np (row_vwap r) (row_volume r)) rows"
    by (induction rows) simp_all
  then show ?thesis
    using assms by (simp add: vwap_def Let_def length_cumsum)
qed

text \<open>
  With a product that does not depend on the order of its factors, \<open>vwap\<close> gives at
  every position the value of the specification.
\<close>

lemma vwap_nth_spec:
  assumes comm: "\<And>a b. np_mul np a b = np_mul np b a"
    and i: "i < length rows"
  shows "spec_indicator np rows i = Some (snd (vwap np rows ! i))"
proof -
  let ?pq = "map (\<lambda>r. np_mul np (row_volume r) (row_vwap r)) rows"
  have pq: "map (\<lambda>r. np_mul np (row_vwap r) (row_volume r)) rows = ?pq"
    by (simp add: comm)
  have n: "sum_left (np_add np)
             (map (\<lambda>r. np_mul np (row_volume r) (row_vwap r)) (take (Suc i) rows)) =
           Some (cumsum (np_add np) ?pq ! i)"
    using cumsum_nth [of i ?pq "np_add np"] i by (simp add: take_map)
  have d: "sum_left (np_add np) (map row_volume (take (Suc i) rows)) =
           Some (cumsum (np_add np) (map row_volume rows) ! i)"
    using cumsum_nth [of i "map row_volume rows" "np_add np"] i by (simp add: take_map)
  have "snd (vwap np rows ! i) =
          np_div np (cumsum (np_add np) ?pq ! i)
            (cumsum (np_add np) (map row_volume rows) ! i)"
    using vwap_nth [OF i, of np] by (simp only: pq) simp
  then show ?thesis
    using i by (simp add: spec_indicator_def n d)
qed

section \<open>Remove events\<close>

text \<open>
  C1, as the code has it: a candle with the REMOVE flag set is not converted and not
  merged. The store after it is the store before it: the candle is never inserted, and
  an entry already at its time stays, so nothing is deleted. Nothing is printed.
\<close>

theorem remove_event_keeps_store:
  assumes "candle_eventFlags c AND REMOVE_EVENT \<noteq> 0"
  shows "df (process_candle np ft c s) = df s \<and> stdout (process_candle np ft c s) = stdout s"
  using assms by (simp add: process_candle_df process_candle_stdout merge_candle_remove)

theorem remove_event_keeps_store_witness:
  "candle_eventFlags (sample_candle 2 1000 (Num 5) (Num 1) (Num 5))
     AND REMOVE_EVENT \<noteq> 0
   \<and> df (process_candle (\<lparr>np_mul = (*), np_add = (+), np_div = (/)\<rparr> :: real numpy) Some
          (sample_candle 2 1000 (Num 5) (Num 1) (Num 5))
          (state_with [sample_row 0 1000 5 1 5] False))
     = [sample_row 0 1000 5 1 5]"
proof -
  have h: "candle_eventFlags
             (sample_candle 2 1000 (Num 5) (Num 1) (Num 5))
           AND REMOVE_EVENT \<noteq> 0"
    by (simp add: REMOVE_EVENT_def)
  show ?thesis
    using h remove_event_keeps_store [OF h, where np = "(\<lparr>np_mul = (*), np_add = (+), np_div = (/)\<rparr> :: real numpy)" and ft = Some
        and s = "state_with [sample_row 0 1000 5 1 5] False"]
    by simp
qed

text \<open>
  The claim as stated fails: the store holds a row at time 1000, a candle with the
  REMOVE flag and time 1000 is processed, and the store still holds a row at time 1000.
\<close>

theorem remove_event_counterexample:
  "candle_eventFlags (sample_candle 2 1000 (Num 5) (Num 1) (Num 5))
     AND REMOVE_EVENT = 2
   \<and> candle_time (sample_candle 2 1000 (Num 5) (Num 1) (Num 5))
     = 1000
   \<and> map row_time (df (process_candle (\<lparr>np_mul = (*), np_add = (+), np_div = (/)\<rparr> :: real numpy) Some
          (sample_candle 2 1000 (Num 5) (Num 1) (Num 5))
          (state_with [sample_row 0 1000 5 1 5] False)))
     = [1000]"
  by (simp add: REMOVE_EVENT_def process_candle_df merge_candle_remove sample_candle_def)

section \<open>Inserting and overwriting\<close>

text \<open>
  C2: a decoded record \<open>r\<close> without the REMOVE flag is inserted, or overwrites the entry
  at its time, in full. After the merge the store holds exactly one row at the time of
  \<open>r\<close>, and it is \<open>r\<close> itself, whatever the store held before; on an ascending store
  the rows at the other times stay as they were, in their order, around \<open>r\<close>. Hence
  when a first record was merged earlier, and any ticks came in between, the second
  record at the same time is the one the store holds.
\<close>

theorem merge_inserts_or_overwrites:
  assumes "candle_eventFlags c AND REMOVE_EVENT = 0"
    and "build_data_row ft c = Some r"
  shows "filter (\<lambda>x. row_time x = row_time r) (df (process_candle np ft c s)) = [r]
       \<and> (sorted_wrt (<) (map row_time (df s)) \<longrightarrow>
            df (process_candle np ft c s) =
              filter (\<lambda>x. row_time x < row_time r) (df s) @ [r] @
              filter (\<lambda>x. row_time r < row_time x) (df s))
       \<and> filter (\<lambda>x. row_time x = row_time r)
            (df (process_candle np ft c
                  (get_candle_async np ft ticks (process_candle np ft c1 s)))) = [r]"
proof -
  have m: "\<And>d. snd (merge_candle ft c d) = sort_values (drop_duplicates (d @ [r]))"
    using assms by (simp add: merge_candle_decoded)
  have one: "\<And>s'. filter (\<lambda>x. row_time x = row_time r) (df (process_candle np ft c s')) = [r]"
    by (simp add: process_candle_df m filter_time_merge)
  have asc: "sorted_wrt (<) (map row_time (df s)) \<longrightarrow>
            df (process_candle np ft c s) =
              filter (\<lambda>x. row_time x < row_time r) (df s) @ [r] @
              filter (\<lambda>x. row_time r < row_time x) (df s)"
    by (simp add: process_candle_df m merge_strictly_ascending)
  show ?thesis using one asc by blast
qed

theorem merge_inserts_or_overwrites_witness:
  "candle_eventFlags (sample_candle 0 1000 (Num 7) (Num 1) (Num 5))
     AND REMOVE_EVENT = 0
   \<and> build_data_row Some
       (sample_candle 0 1000 (Num 7) (Num 1) (Num 5))
     = Some (sample_row 0 1000 7 1 5)
   \<and> sorted_wrt (<) (map row_time
        [sample_row 0 1000 6 1 5,
         sample_row 0 2000 6 1 5])
   \<and> df (process_candle (\<lparr>np_mul = (*), np_add = (+), np_div = (/)\<rparr> :: real numpy) Some
          (sample_candle 0 1000 (Num 7) (Num 1) (Num 5))
          (state_with [sample_row 0 1000 6 1 5,
                       sample_row 0 2000 6 1 5] False))
     = [sample_row 0 1000 7 1 5,
        sample_row 0 2000 6 1 5]"
proof -
  have h1: "candle_eventFlags
              (sample_candle 0 1000 (Num 7) (Num 1) (Num 5))
            AND REMOVE_EVENT = 0"
    by simp
  have h2: "build_data_row Some
              (sample_candle 0 1000 (Num 7) (Num 1) (Num 5))
            = Some (sample_row 0 1000 7 1 5)"
    by (rule build_sample_candle)
  have h3: "sorted_wrt (<) (map row_time
              [sample_row 0 1000 6 1 5,
               sample_row 0 2000 6 1 5])"
    by simp
  show ?thesis
    using h1 h2 h3 merge_inserts_or_overwrites [OF h1 h2, where np = "(\<lparr>np_mul = (*), np_add = (+), np_div = (/)\<rparr> :: real numpy)"
        and s = "state_with [sample_row 0 1000 6 1 5,
                     sample_row 0 2000 6 1 5] False"]
    by simp
qed

section \<open>The order of the store\<close>

text \<open>
  C3: whatever ticks the loop meets from its initial state, the times of the store are
  strictly ascending, so ascending and without a duplicate; and every single candle
  keeps an ascending store ascending, so the order holds after each mutation.
\<close>

theorem store_strictly_ascending:
  "sorted_wrt (<) (map row_time (df (get_candle_async np ft ticks initial_state)))
   \<and> (sorted_wrt (<) (map row_time (df s)) \<longrightarrow>
        sorted_wrt (<) (map row_time (df (process_candle np ft c s))))"
proof -
  have "sorted_wrt (<) (map row_time (df (get_candle_async np ft ticks initial_state)))"
    by (rule get_candle_async_ascending) (simp add: initial_state_def)
  then show ?thesis
    by (simp add: process_candle_ascending)
qed

theorem store_strictly_ascending_witness:
  "sorted_wrt (<) (map row_time (df (state_with
       [sample_row 0 2000 6 1 5] False)))
   \<and> map row_time (df (process_candle (\<lparr>np_mul = (*), np_add = (+), np_div = (/)\<rparr> :: real numpy) Some
        (sample_candle 0 1000 (Num 7) (Num 1) (Num 5))
        (state_with [sample_row 0 2000 6 1 5] False)))
     = [1000, 2000]
   \<and> sorted_wrt (<) (map row_time (df (process_candle (\<lparr>np_mul = (*), np_add = (+), np_div = (/)\<rparr> :: real numpy) Some
        (sample_candle 0 1000 (Num 7) (Num 1) (Num 5))
        (state_with [sample_row 0 2000 6 1 5] False))))"
proof -
  have h: "sorted_wrt (<) (map row_time (df (state_with
             [sample_row 0 2000 6 1 5] False)))"
    by simp
  have e: "map row_time (df (process_candle (\<lparr>np_mul = (*), np_add = (+), np_div = (/)\<rparr> :: real numpy) Some
        (sample_candle 0 1000 (Num 7) (Num 1) (Num 5))
        (state_with [sample_row 0 2000 6 1 5] False)))
     = [1000, 2000]"
    by (simp add: process_candle_df merge_candle_decoded [OF _ build_sample_candle]
          sort_values_def)
  show ?thesis
    using h e store_strictly_ascending [of
        "(\<lparr>np_mul = (*), np_add = (+), np_div = (/)\<rparr> :: real numpy)" Some Nil
        "state_with [sample_row 0 2000 6 1 5] False"
        "sample_candle 0 1000 (Num 7) (Num 1) (Num 5)"]
    by simp
qed

section \<open>Timeouts\<close>

text \<open>
  C8: a turn of the loop that ends in a timeout leaves the state as it was, the store,
  the gate and what has been drawn and printed. So \<open>n\<close> timeouts in a row change
  nothing and publish nothing, the ticks after them are met from the same state, and a
  \<open>Quit\<close> after them is seen at the next test of \<open>self.run\<close>: the loop leaves and
  closes the streamer.
\<close>

theorem timeouts_change_nothing:
  "get_candle_async np ft (Timeout # ticks) s = get_candle_async np ft ticks s
   \<and> get_candle_async np ft (replicate n Timeout) s = s
   \<and> get_candle_async np ft (replicate n Timeout @ ticks) s = get_candle_async np ft ticks s
   \<and> get_candle_async np ft (replicate n Timeout @ Quit # ticks) s = s \<lparr> closed := True \<rparr>"
proof -
  have a: "get_candle_async np ft (replicate n Timeout @ ts) s = get_candle_async np ft ts s"
    for ts
    by (induction n) simp_all
  have "get_candle_async np ft (replicate n Timeout) s = s"
    using a [of Nil] by simp
  then show ?thesis using a by simp
qed

theorem timeouts_change_nothing_witness:
  "get_candle_async (\<lparr>np_mul = (*), np_add = (+), np_div = (/)\<rparr> :: real numpy) Some (replicate 3 Timeout) (state_with [row_at 0 2000 2 20] True)
     = state_with [row_at 0 2000 2 20] True
   \<and> get_candle_async (\<lparr>np_mul = (*), np_add = (+), np_div = (/)\<rparr> :: real numpy) Some (replicate 3 Timeout @ [Quit, Event (candle_at 0 1000 1 10)])
       (state_with [row_at 0 2000 2 20] True)
     = state_with [row_at 0 2000 2 20] True \<lparr> closed := True \<rparr>"
  using timeouts_change_nothing [of "(\<lparr>np_mul = (*), np_add = (+), np_div = (/)\<rparr> :: real numpy)" Some
      "[Event (candle_at 0 1000 1 10)]"
      "state_with [row_at 0 2000 2 20] True" 3]
  by simp

section \<open>A candle with both snapshot flags\<close>

text \<open>
  C10: when SNAPSHOT_BEGIN and SNAPSHOT_END are both set on a candle, \<open>update_graph\<close>
  is true after the candle, whatever it was before: the test of SNAPSHOT_END comes
  second and wins.
\<close>

theorem snapshot_end_wins:
  assumes "candle_eventFlags c AND SNAPSHOT_BEGIN \<noteq> 0"
    and "candle_eventFlags c AND SNAPSHOT_END \<noteq> 0"
  shows "update_graph (process_candle np ft c s) = True"
  using assms by (simp add: process_candle_update_graph snapshot_gate_def)

theorem snapshot_end_wins_witness:
  "candle_eventFlags (sample_candle 12 1000 (Num 7) (Num 1) (Num 5))
     AND SNAPSHOT_BEGIN \<noteq> 0
   \<and> candle_eventFlags (sample_candle 12 1000 (Num 7) (Num 1) (Num 5))
       AND SNAPSHOT_END \<noteq> 0
   \<and> update_graph (process_candle (\<lparr>np_mul = (*), np_add = (+), np_div = (/)\<rparr> :: real numpy) Some
        (sample_candle 12 1000 (Num 7) (Num 1) (Num 5))
        (state_with [] False)) = True"
proof -
  have h1: "candle_eventFlags
              (sample_candle 12 1000 (Num 7) (Num 1) (Num 5))
            AND SNAPSHOT_BEGIN \<noteq> 0"
    by (simp add: SNAPSHOT_BEGIN_def)
  have h2: "candle_eventFlags
              (sample_candle 12 1000 (Num 7) (Num 1) (Num 5))
            AND SNAPSHOT_END \<noteq> 0"
    by (simp add: SNAPSHOT_END_def)
  show ?thesis
    using h1 h2 snapshot_end_wins [OF h1 h2, where np = "(\<lparr>np_mul = (*), np_add = (+), np_div = (/)\<rparr> :: real numpy)" and ft = Some
        and s = "state_with [] False"]
    by simp
qed

section \<open>The snapshot gate\<close>

lemma gate_stays_suppressed:
  assumes "update_graph s = False"
    and "\<forall>c\<in>set cs. candle_eventFlags c AND SNAPSHOT_END = 0"
  shows "update_graph (get_candle_async np ft (map Event cs) s) = False
       \<and> drawn (get_candle_async np ft (map Event cs) s) = drawn s"
  using assms
proof (induction cs arbitrary: s)
  case Nil
  then show ?case by simp
next
  case (Cons c cs)
  have g: "update_graph (process_candle np ft c s) = False"
    using Cons.prems by (simp add: process_candle_update_graph snapshot_gate_eq)
  have d: "drawn (process_candle np ft c s) = drawn s"
    using g by (simp add: process_candle_drawn)
  have "update_graph (get_candle_async np ft (map Event cs) (process_candle np ft c s)) = False
      \<and> drawn (get_candle_async np ft (map Event cs) (process_candle np ft c s))
        = drawn (process_candle np ft c s)"
    using Cons.IH [OF g] Cons.prems(2) by simp
  then show ?case using d by simp
qed

lemma begin_then_unflagged:
  assumes "candle_eventFlags c0 AND SNAPSHOT_BEGIN \<noteq> 0"
    and "candle_eventFlags c0 AND SNAPSHOT_END = 0"
    and "\<forall>c\<in>set cs. candle_eventFlags c AND SNAPSHOT_END = 0"
  shows "update_graph (get_candle_async np ft (Event c0 # map Event cs) s) = False
       \<and> drawn (get_candle_async np ft (Event c0 # map Event cs) s) = drawn s"
proof -
  have g: "update_graph (process_candle np ft c0 s) = False"
    using assms(1,2) by (simp add: process_candle_update_graph snapshot_gate_eq)
  have d: "drawn (process_candle np ft c0 s) = drawn s"
    using g by (simp add: process_candle_drawn)
  show ?thesis
    using gate_stays_suppressed [OF g assms(3), of np ft] d by simp
qed

lemma begin_none_end:
  assumes f0: "candle_eventFlags c0 = SNAPSHOT_BEGIN"
    and f1: "candle_eventFlags c1 = 0"
    and f2: "candle_eventFlags c2 = SNAPSHOT_END"
    and b0: "build_data_row ft c0 = Some r0"
    and b1: "build_data_row ft c1 = Some r1"
    and b2: "build_data_row ft c2 = Some r2"
    and lt: "row_time r0 < row_time r1" "row_time r1 < row_time r2"
  shows "drawn (get_candle_async np ft [Event c0] initial_state) = []
       \<and> drawn (get_candle_async np ft [Event c0, Event c1] initial_state) = []
       \<and> drawn (get_candle_async np ft [Event c0, Event c1, Event c2] initial_state)
         = [vwap np [r0, r1, r2]]
       \<and> map fst (last (drawn
             (get_candle_async np ft [Event c0, Event c1, Event c2] initial_state)))
         = [r0, r1, r2]"
proof -
  let ?s0 = "process_candle np ft c0 initial_state"
  let ?s1 = "process_candle np ft c1 ?s0"
  let ?s2 = "process_candle np ft c2 ?s1"
  have n0: "candle_eventFlags c0 AND REMOVE_EVENT = 0"
    by (simp add: f0 SNAPSHOT_BEGIN_def REMOVE_EVENT_def)
  have n1: "candle_eventFlags c1 AND REMOVE_EVENT = 0"
    by (simp add: f1)
  have n2: "candle_eventFlags c2 AND REMOVE_EVENT = 0"
    by (simp add: f2 SNAPSHOT_END_def REMOVE_EVENT_def)
  have m: "df (process_candle np ft c s) = sort_values (drop_duplicates (df s @ [r]))"
    if "candle_eventFlags c AND REMOVE_EVENT = 0" and "build_data_row ft c = Some r"
    for c s r
    using that by (simp add: process_candle_df merge_candle_decoded)
  have d0: "df ?s0 = [r0]"
    using m [OF n0 b0, of initial_state] by (simp add: initial_state_def sort_values_def)
  have "sort_values (drop_duplicates ([r0] @ [r1])) = [r0, r1]"
    using lt merge_strictly_ascending [of "[r0]" r1] by simp
  then have d1: "df ?s1 = [r0, r1]"
    using m [OF n1 b1, of ?s0] by (simp only: d0)
  have "sort_values (drop_duplicates ([r0, r1] @ [r2])) = [r0, r1, r2]"
    using lt merge_strictly_ascending [of "[r0, r1]" r2] by simp
  then have d2: "df ?s2 = [r0, r1, r2]"
    using m [OF n2 b2, of ?s1] by (simp only: d1)
  have g0: "update_graph ?s0 = False"
    by (simp add: process_candle_update_graph snapshot_gate_eq f0 SNAPSHOT_BEGIN_def
          SNAPSHOT_END_def)
  have "update_graph ?s1 = update_graph ?s0"
    by (simp add: process_candle_update_graph [of np ft c1] snapshot_gate_eq f1)
  then have g1: "update_graph ?s1 = False"
    by (simp only: g0)
  have g2: "update_graph ?s2 = True"
    by (simp add: process_candle_update_graph [of np ft c2] snapshot_gate_eq f2
          SNAPSHOT_END_def)
  have p0: "drawn ?s0 = []"
    using process_candle_drawn [of np ft c0 initial_state] g0
    by (simp add: initial_state_def)
  have p1: "drawn ?s1 = []"
    using process_candle_drawn [of np ft c1 ?s0] g1 p0 by simp
  have p2: "drawn ?s2 = [vwap np [r0, r1, r2]]"
    using process_candle_drawn [of np ft c2 ?s1] g2 d2 p1 by simp
  show ?thesis using p0 p1 p2 by (simp add: vwap_rows)
qed

text \<open>
  C4: \<open>update_graph\<close> is the gate, false for Suppressed and true for Publishable. It
  starts false. After a candle it is true when SNAPSHOT_END is set, else false when
  SNAPSHOT_BEGIN is set, else what it was: no other flag moves it. A candle publishes
  (one more frame is drawn, the store with its indicator) exactly when after it the
  gate is true and the store is not empty, and the rows of a published frame are the
  rows of the store; the store after a candle is the result of the merge, which does
  not read the gate. For the flags BEGIN, none, END on candles that decode to rows at
  ascending times, nothing is drawn after the first and the second candle, and after
  the third one frame is drawn, whose rows are the three rows in their order. After a
  candle with BEGIN and without END, candles without END keep the gate false and draw
  nothing, however many they are.
\<close>

theorem snapshot_gate_controls_publish:
  "update_graph initial_state = False
   \<and> update_graph (process_candle np ft c s) =
       (if candle_eventFlags c AND SNAPSHOT_END \<noteq> 0 then True
        else if candle_eventFlags c AND SNAPSHOT_BEGIN \<noteq> 0 then False
        else update_graph s)
   \<and> drawn (process_candle np ft c s) =
       (if update_graph (process_candle np ft c s) \<and> df (process_candle np ft c s) \<noteq> []
        then drawn s @ [vwap np (df (process_candle np ft c s))] else drawn s)
   \<and> map fst (vwap np (df (process_candle np ft c s))) = df (process_candle np ft c s)
   \<and> df (process_candle np ft c s) = snd (merge_candle ft c (df s))
   \<and> (candle_eventFlags c0 = SNAPSHOT_BEGIN \<and> candle_eventFlags c1 = 0 \<and>
      candle_eventFlags c2 = SNAPSHOT_END \<and>
      build_data_row ft c0 = Some r0 \<and> build_data_row ft c1 = Some r1 \<and>
      build_data_row ft c2 = Some r2 \<and>
      row_time r0 < row_time r1 \<and> row_time r1 < row_time r2 \<longrightarrow>
        drawn (get_candle_async np ft [Event c0] initial_state) = []
      \<and> drawn (get_candle_async np ft [Event c0, Event c1] initial_state) = []
      \<and> drawn (get_candle_async np ft [Event c0, Event c1, Event c2] initial_state)
        = [vwap np [r0, r1, r2]]
      \<and> map fst (last (drawn
            (get_candle_async np ft [Event c0, Event c1, Event c2] initial_state)))
        = [r0, r1, r2])
   \<and> (candle_eventFlags b AND SNAPSHOT_BEGIN \<noteq> 0 \<and>
      candle_eventFlags b AND SNAPSHOT_END = 0 \<and>
      (\<forall>x\<in>set cs. candle_eventFlags x AND SNAPSHOT_END = 0) \<longrightarrow>
        update_graph (get_candle_async np ft (Event b # map Event cs) s) = False
      \<and> drawn (get_candle_async np ft (Event b # map Event cs) s) = drawn s)"
proof -
  have a: "update_graph initial_state = False"
    by (simp add: initial_state_def)
  have b: "update_graph (process_candle np ft c s) =
       (if candle_eventFlags c AND SNAPSHOT_END \<noteq> 0 then True
        else if candle_eventFlags c AND SNAPSHOT_BEGIN \<noteq> 0 then False
        else update_graph s)"
    by (simp only: process_candle_update_graph snapshot_gate_eq)
  have c: "drawn (process_candle np ft c s) =
       (if update_graph (process_candle np ft c s) \<and> df (process_candle np ft c s) \<noteq> []
        then drawn s @ [vwap np (df (process_candle np ft c s))] else drawn s)"
    by (rule process_candle_drawn)
  have d: "map fst (vwap np (df (process_candle np ft c s))) = df (process_candle np ft c s)"
    by (rule vwap_rows)
  have e: "df (process_candle np ft c s) = snd (merge_candle ft c (df s))"
    by (rule process_candle_df)
  have sc: "candle_eventFlags c0 = SNAPSHOT_BEGIN \<and> candle_eventFlags c1 = 0 \<and>
      candle_eventFlags c2 = SNAPSHOT_END \<and>
      build_data_row ft c0 = Some r0 \<and> build_data_row ft c1 = Some r1 \<and>
      build_data_row ft c2 = Some r2 \<and>
      row_time r0 < row_time r1 \<and> row_time r1 < row_time r2 \<longrightarrow>
        drawn (get_candle_async np ft [Event c0] initial_state) = []
      \<and> drawn (get_candle_async np ft [Event c0, Event c1] initial_state) = []
      \<and> drawn (get_candle_async np ft [Event c0, Event c1, Event c2] initial_state)
        = [vwap np [r0, r1, r2]]
      \<and> map fst (last (drawn
            (get_candle_async np ft [Event c0, Event c1, Event c2] initial_state)))
        = [r0, r1, r2]"
  proof (intro impI, elim conjE)
    assume "candle_eventFlags c0 = SNAPSHOT_BEGIN" "candle_eventFlags c1 = 0"
      "candle_eventFlags c2 = SNAPSHOT_END"
      "build_data_row ft c0 = Some r0" "build_data_row ft c1 = Some r1"
      "build_data_row ft c2 = Some r2"
      "row_time r0 < row_time r1" "row_time r1 < row_time r2"
    then show "drawn (get_candle_async np ft [Event c0] initial_state) = []
      \<and> drawn (get_candle_async np ft [Event c0, Event c1] initial_state) = []
      \<and> drawn (get_candle_async np ft [Event c0, Event c1, Event c2] initial_state)
        = [vwap np [r0, r1, r2]]
      \<and> map fst (last (drawn
            (get_candle_async np ft [Event c0, Event c1, Event c2] initial_state)))
        = [r0, r1, r2]"
      by (rule begin_none_end)
  qed
  have ps: "candle_eventFlags b AND SNAPSHOT_BEGIN \<noteq> 0 \<and>
      candle_eventFlags b AND SNAPSHOT_END = 0 \<and>
      (\<forall>x\<in>set cs. candle_eventFlags x AND SNAPSHOT_END = 0) \<longrightarrow>
        update_graph (get_candle_async np ft (Event b # map Event cs) s) = False
      \<and> drawn (get_candle_async np ft (Event b # map Event cs) s) = drawn s"
  proof (intro impI, elim conjE)
    assume "candle_eventFlags b AND SNAPSHOT_BEGIN \<noteq> 0"
      "candle_eventFlags b AND SNAPSHOT_END = 0"
      "\<forall>x\<in>set cs. candle_eventFlags x AND SNAPSHOT_END = 0"
    then show "update_graph (get_candle_async np ft (Event b # map Event cs) s) = False
      \<and> drawn (get_candle_async np ft (Event b # map Event cs) s) = drawn s"
      by (rule begin_then_unflagged)
  qed
  from a b c d e sc ps show ?thesis by (intro conjI)
qed

theorem snapshot_gate_controls_publish_witness:
  "candle_eventFlags (candle_at 4 1000 1 10) = SNAPSHOT_BEGIN
   \<and> candle_eventFlags (candle_at 0 2000 2 20) = 0
   \<and> candle_eventFlags (candle_at 8 3000 3 30) = SNAPSHOT_END
   \<and> build_data_row Some (candle_at 4 1000 1 10) = Some (row_at 4 1000 1 10)
   \<and> build_data_row Some (candle_at 0 2000 2 20) = Some (row_at 0 2000 2 20)
   \<and> build_data_row Some (candle_at 8 3000 3 30) = Some (row_at 8 3000 3 30)
   \<and> row_time (row_at 4 1000 1 10) < row_time (row_at 0 2000 2 20)
   \<and> row_time (row_at 0 2000 2 20) < row_time (row_at 8 3000 3 30)
   \<and> drawn (get_candle_async (\<lparr>np_mul = (*), np_add = (+), np_div = (/)\<rparr> :: real numpy) Some
        [Event (candle_at 4 1000 1 10), Event (candle_at 0 2000 2 20)] initial_state) = []
   \<and> drawn (get_candle_async (\<lparr>np_mul = (*), np_add = (+), np_div = (/)\<rparr> :: real numpy) Some
        [Event (candle_at 4 1000 1 10), Event (candle_at 0 2000 2 20),
         Event (candle_at 8 3000 3 30)] initial_state)
     = [vwap (\<lparr>np_mul = (*), np_add = (+), np_div = (/)\<rparr> :: real numpy)
          [row_at 4 1000 1 10, row_at 0 2000 2 20, row_at 8 3000 3 30]]
   \<and> map fst (last (drawn (get_candle_async (\<lparr>np_mul = (*), np_add = (+), np_div = (/)\<rparr> :: real numpy) Some
        [Event (candle_at 4 1000 1 10), Event (candle_at 0 2000 2 20),
         Event (candle_at 8 3000 3 30)] initial_state)))
     = [row_at 4 1000 1 10, row_at 0 2000 2 20, row_at 8 3000 3 30]
   \<and> candle_eventFlags (candle_at 4 1000 1 10) AND SNAPSHOT_BEGIN \<noteq> 0
   \<and> candle_eventFlags (candle_at 4 1000 1 10) AND SNAPSHOT_END = 0
   \<and> candle_eventFlags (candle_at 0 2000 2 20) AND SNAPSHOT_END = 0
   \<and> candle_eventFlags (candle_at 1 3000 3 30) AND SNAPSHOT_END = 0
   \<and> update_graph (get_candle_async (\<lparr>np_mul = (*), np_add = (+), np_div = (/)\<rparr> :: real numpy) Some
        (Event (candle_at 4 1000 1 10) #
         map Event [candle_at 0 2000 2 20, candle_at 1 3000 3 30])
        (state_with [] True)) = False"
proof -
  have f: "candle_eventFlags (candle_at 4 1000 1 10) = SNAPSHOT_BEGIN"
    "candle_eventFlags (candle_at 0 2000 2 20) = 0"
    "candle_eventFlags (candle_at 8 3000 3 30) = SNAPSHOT_END"
    by (simp_all add: SNAPSHOT_BEGIN_def SNAPSHOT_END_def)
  have b: "build_data_row Some (candle_at 4 1000 1 10) = Some (row_at 4 1000 1 10)"
    "build_data_row Some (candle_at 0 2000 2 20) = Some (row_at 0 2000 2 20)"
    "build_data_row Some (candle_at 8 3000 3 30) = Some (row_at 8 3000 3 30)"
    by (rule build_candle_at)+
  have t: "row_time (row_at 4 1000 1 10) < row_time (row_at 0 2000 2 20)"
    "row_time (row_at 0 2000 2 20) < row_time (row_at 8 3000 3 30)"
    by simp_all
  have g: "candle_eventFlags (candle_at 4 1000 1 10) AND SNAPSHOT_BEGIN \<noteq> 0"
    "candle_eventFlags (candle_at 4 1000 1 10) AND SNAPSHOT_END = 0"
    "\<forall>x\<in>set [candle_at 0 2000 2 20, candle_at 1 3000 3 30].
       candle_eventFlags x AND SNAPSHOT_END = 0"
    by (simp_all add: SNAPSHOT_BEGIN_def SNAPSHOT_END_def)
  note w = snapshot_gate_controls_publish [where np = "(\<lparr>np_mul = (*), np_add = (+), np_div = (/)\<rparr> :: real numpy)" and ft = Some
      and c = "candle_at 8 3000 3 30" and s = "state_with [] True"
      and ?c0.0 = "candle_at 4 1000 1 10" and ?c1.0 = "candle_at 0 2000 2 20"
      and ?c2.0 = "candle_at 8 3000 3 30"
      and ?r0.0 = "row_at 4 1000 1 10" and ?r1.0 = "row_at 0 2000 2 20"
      and ?r2.0 = "row_at 8 3000 3 30"
      and b = "candle_at 4 1000 1 10"
      and cs = "[candle_at 0 2000 2 20, candle_at 1 3000 3 30]"]
  have e: "candle_eventFlags (candle_at 0 2000 2 20) AND SNAPSHOT_END = 0"
    "candle_eventFlags (candle_at 1 3000 3 30) AND SNAPSHOT_END = 0"
    by (simp_all add: SNAPSHOT_END_def)
  note w5 = w [THEN conjunct2, THEN conjunct2, THEN conjunct2, THEN conjunct2,
      THEN conjunct2]
  have sc: "drawn (get_candle_async (\<lparr>np_mul = (*), np_add = (+), np_div = (/)\<rparr> :: real numpy) Some
        [Event (candle_at 4 1000 1 10), Event (candle_at 0 2000 2 20)] initial_state) = []"
    "drawn (get_candle_async (\<lparr>np_mul = (*), np_add = (+), np_div = (/)\<rparr> :: real numpy) Some
        [Event (candle_at 4 1000 1 10), Event (candle_at 0 2000 2 20),
         Event (candle_at 8 3000 3 30)] initial_state)
     = [vwap (\<lparr>np_mul = (*), np_add = (+), np_div = (/)\<rparr> :: real numpy)
          [row_at 4 1000 1 10, row_at 0 2000 2 20, row_at 8 3000 3 30]]"
    "map fst (last (drawn (get_candle_async (\<lparr>np_mul = (*), np_add = (+), np_div = (/)\<rparr> :: real numpy) Some
        [Event (candle_at 4 1000 1 10), Event (candle_at 0 2000 2 20),
         Event (candle_at 8 3000 3 30)] initial_state)))
     = [row_at 4 1000 1 10, row_at 0 2000 2 20, row_at 8 3000 3 30]"
    using mp [OF w5 [THEN conjunct1]] f b t by blast+
  have ps: "update_graph (get_candle_async (\<lparr>np_mul = (*), np_add = (+), np_div = (/)\<rparr> :: real numpy) Some
        (Event (candle_at 4 1000 1 10) #
         map Event [candle_at 0 2000 2 20, candle_at 1 3000 3 30])
        (state_with [] True)) = False"
    using mp [OF w5 [THEN conjunct2]] g by blast
  from f b t sc g(1,2) e ps show ?thesis by (intro conjI)
qed

section \<open>Decode failures\<close>

lemma build_data_row_fails:
  assumes "py_float (candle_open c) = None \<or> py_float (candle_high c) = None \<or>
           py_float (candle_low c) = None \<or> py_float (candle_close c) = None \<or>
           py_float (candle_volume c) = None \<or> py_float (candle_vwap c) = None"
  shows "build_data_row ft c = None"
  using assms by (auto simp: build_data_row_def split: Option.bind_splits)

text \<open>
  C7, as the code has it: when one of the six required numeric attributes of a candle
  cannot be converted, \<open>candle_to_dataframe\<close> returns the empty frame and prints the
  failure and the candle. The store after the candle is the store before it, and the
  loop goes on to the next tick. The failure is printed when the candle is converted,
  that is when its REMOVE flag is clear; a candle with the REMOVE flag set is not
  converted, and nothing is printed for it.
\<close>

theorem decode_failure_discards_candle:
  assumes "py_float (candle_open c) = None \<or> py_float (candle_high c) = None \<or>
           py_float (candle_low c) = None \<or> py_float (candle_close c) = None \<or>
           py_float (candle_volume c) = None \<or> py_float (candle_vwap c) = None"
  shows "candle_to_dataframe ft c = ([Text ''EXCEPT: candle_to_dataframe'', Repr c], [])
       \<and> df (process_candle np ft c s) = df s
       \<and> stdout (process_candle np ft c s) =
           stdout s @ (if candle_eventFlags c AND REMOVE_EVENT = 0
                       then [Text ''EXCEPT: candle_to_dataframe'', Repr c] else [])
       \<and> closed (process_candle np ft c s) = closed s
       \<and> get_candle_async np ft (Event c # ticks) s =
           get_candle_async np ft ticks (process_candle np ft c s)"
proof -
  have n: "build_data_row ft c = None"
    using assms by (rule build_data_row_fails)
  have m: "merge_candle ft c (df s) =
             (if candle_eventFlags c AND REMOVE_EVENT = 0
              then [Text ''EXCEPT: candle_to_dataframe'', Repr c] else [], df s)"
    using n by (simp add: merge_candle_failed merge_candle_remove)
  show ?thesis
    using n by (simp add: candle_to_dataframe_def process_candle_df process_candle_stdout
          process_candle_closed m)
qed

theorem decode_failure_discards_candle_witness:
  "py_float (candle_volume (sample_candle 0 1000 (Num 1) PyNone (Num 5)))
     = None
   \<and> df (process_candle (\<lparr>np_mul = (*), np_add = (+), np_div = (/)\<rparr> :: real numpy) Some (sample_candle 0 1000 (Num 1) PyNone (Num 5))
          (state_with [row_at 0 2000 2 20] True))
     = [row_at 0 2000 2 20]
   \<and> stdout (process_candle (\<lparr>np_mul = (*), np_add = (+), np_div = (/)\<rparr> :: real numpy) Some
          (sample_candle 0 1000 (Num 1) PyNone (Num 5))
          (state_with [row_at 0 2000 2 20] True))
     = [Text ''EXCEPT: candle_to_dataframe'',
        Repr (sample_candle 0 1000 (Num 1) PyNone (Num 5))]"
proof -
  have v: "py_float (candle_volume
             (sample_candle 0 1000 (Num 1) PyNone (Num 5))) = None"
    by (simp add: sample_candle_def)
  then have h: "py_float (candle_open
             (sample_candle 0 1000 (Num 1) PyNone (Num 5))) = None \<or>
           py_float (candle_high
             (sample_candle 0 1000 (Num 1) PyNone (Num 5))) = None \<or>
           py_float (candle_low
             (sample_candle 0 1000 (Num 1) PyNone (Num 5))) = None \<or>
           py_float (candle_close
             (sample_candle 0 1000 (Num 1) PyNone (Num 5))) = None \<or>
           py_float (candle_volume
             (sample_candle 0 1000 (Num 1) PyNone (Num 5))) = None \<or>
           py_float (candle_vwap
             (sample_candle 0 1000 (Num 1) PyNone (Num 5))) = None"
    by blast
  show ?thesis
    using v decode_failure_discards_candle [OF h, where np = "(\<lparr>np_mul = (*), np_add = (+), np_div = (/)\<rparr> :: real numpy)" and ft = Some
        and s = "state_with [row_at 0 2000 2 20] True"]
    by simp
qed

text \<open>
  The claim as stated fails: a candle with the REMOVE flag set and no volume is a raw
  event with a required field that cannot be converted, and after it nothing has been
  printed.
\<close>

theorem decode_failure_counterexample:
  "py_float (candle_volume (sample_candle 2 1000 (Num 1) PyNone (Num 5)))
     = None
   \<and> stdout (process_candle (\<lparr>np_mul = (*), np_add = (+), np_div = (/)\<rparr> :: real numpy) Some
          (sample_candle 2 1000 (Num 1) PyNone (Num 5)) initial_state)
     = []"
  by (simp add: process_candle_stdout merge_candle_remove REMOVE_EVENT_def
        initial_state_def sample_candle_def)

section \<open>The flags that are only diagnostic\<close>

lemma and_outside_mask:
  assumes "(f::int) AND NOT k = g AND NOT k" and "m AND NOT k = m"
  shows "f AND m = g AND m"
proof -
  have "f AND m = f AND (NOT k AND m)" using assms(2) by (simp add: and.commute)
  also have "\<dots> = (f AND NOT k) AND m" by (simp only: and.assoc)
  also have "\<dots> = (g AND NOT k) AND m" using assms(1) by simp
  also have "\<dots> = g AND (NOT k AND m)" by (simp only: and.assoc)
  also have "\<dots> = g AND m" using assms(2) by (simp add: and.commute)
  finally show ?thesis .
qed

lemma insort_key_map:
  fixes g :: "'a \<Rightarrow> 'a"
  assumes "\<And>x. f (g x) = f x"
  shows "insort_key f (g a) (map g xs) = map g (insort_key f a xs)"
  by (induction xs) (simp_all add: assms)

lemma sort_values_map:
  fixes g :: "'f data_row \<Rightarrow> 'f data_row"
  assumes "\<And>x. row_time (g x) = row_time x"
  shows "sort_values (map g xs) = map g (sort_values xs)"
  unfolding sort_values_def
  by (induction xs) (simp_all add: insort_key_map [of row_time g, OF assms])

lemma build_data_row_flags:
  "build_data_row ft (c \<lparr> candle_eventFlags := f \<rparr>) =
     map_option (\<lambda>r. r \<lparr> row_eventFlags := f \<rparr>) (build_data_row ft c)"
  by (simp add: build_data_row_def split: Option.bind_split)

lemma merge_other_flags:
  assumes r: "build_data_row ft c1 = Some r1"
  shows "sort_values (drop_duplicates (d @ [r1 \<lparr> row_eventFlags := f \<rparr>])) =
         map (\<lambda>x. if x = r1 then x \<lparr> row_eventFlags := f \<rparr> else x)
           (sort_values (drop_duplicates (d @ [r1])))"
proof -
  let ?r2 = "r1 \<lparr> row_eventFlags := f \<rparr>"
  let ?upd = "\<lambda>x. if x = r1 then x \<lparr> row_eventFlags := f \<rparr> else x"
  let ?ys = "filter (\<lambda>x. row_time x \<noteq> row_time r1) (drop_duplicates d)"
  have t: "row_time (?upd x) = row_time x" for x by simp
  have "map ?upd ?ys = ?ys" by (rule map_idI) auto
  then have "map ?upd (?ys @ [r1]) = ?ys @ [?r2]" by simp
  moreover have "drop_duplicates (d @ [r1]) = ?ys @ [r1]"
    by (simp add: drop_duplicates_snoc)
  moreover have "drop_duplicates (d @ [?r2]) = ?ys @ [?r2]"
    by (simp add: drop_duplicates_snoc)
  ultimately have "drop_duplicates (d @ [?r2]) = map ?upd (drop_duplicates (d @ [r1]))"
    by simp
  then show ?thesis
    using sort_values_map [of ?upd, OF t] by simp
qed

text \<open>
  C9, as the code has it. Two candles differ only in the bits TX_PENDING, SNAPSHOT_SNIP
  and SNAPSHOT_MODE of their flags; both are processed from the same state. The gate
  after them is the same, and one publishes exactly when the other does, with the same
  indicator values. The stores after them have the same rows in the same order, but for
  the row merged from the candle: its column \<open>eventFlags\<close> holds the flags of its own
  candle. With that column erased the stores are equal.
\<close>

theorem diagnostic_flags_do_not_steer:
  assumes "c2 = c1 \<lparr> candle_eventFlags := candle_eventFlags c2 \<rparr>"
    and "candle_eventFlags c1 AND NOT (TX_PENDING OR SNAPSHOT_SNIP OR SNAPSHOT_MODE) =
         candle_eventFlags c2 AND NOT (TX_PENDING OR SNAPSHOT_SNIP OR SNAPSHOT_MODE)"
  shows "update_graph (process_candle np ft c2 s) = update_graph (process_candle np ft c1 s)
       \<and> length (drawn (process_candle np ft c2 s)) = length (drawn (process_candle np ft c1 s))
       \<and> map (map snd) (drawn (process_candle np ft c2 s)) =
         map (map snd) (drawn (process_candle np ft c1 s))
       \<and> df (process_candle np ft c2 s) =
         map (\<lambda>x. if candle_eventFlags c1 AND REMOVE_EVENT = 0 \<and>
                     build_data_row ft c1 = Some x
                  then x \<lparr> row_eventFlags := candle_eventFlags c2 \<rparr> else x)
           (df (process_candle np ft c1 s))
       \<and> map (\<lambda>x. x \<lparr> row_eventFlags := 0 \<rparr>) (df (process_candle np ft c2 s)) =
         map (\<lambda>x. x \<lparr> row_eventFlags := 0 \<rparr>) (df (process_candle np ft c1 s))"
proof -
  let ?f1 = "candle_eventFlags c1" and ?f2 = "candle_eventFlags c2"
  let ?upd = "\<lambda>x. if ?f1 AND REMOVE_EVENT = 0 \<and> build_data_row ft c1 = Some x
                   then x \<lparr> row_eventFlags := ?f2 \<rparr> else x"
  have k: "TX_PENDING OR SNAPSHOT_SNIP OR SNAPSHOT_MODE = 81"
    by (simp add: TX_PENDING_def SNAPSHOT_SNIP_def SNAPSHOT_MODE_def)
  have bits: "?f1 AND NOT 81 = ?f2 AND NOT 81"
    using assms(2) by (simp only: k)
  have rm: "?f2 AND REMOVE_EVENT = ?f1 AND REMOVE_EVENT"
    using and_outside_mask [OF bits, of REMOVE_EVENT] by (simp add: REMOVE_EVENT_def)
  have bg: "?f2 AND SNAPSHOT_BEGIN = ?f1 AND SNAPSHOT_BEGIN"
    using and_outside_mask [OF bits, of SNAPSHOT_BEGIN] by (simp add: SNAPSHOT_BEGIN_def)
  have en: "?f2 AND SNAPSHOT_END = ?f1 AND SNAPSHOT_END"
    using and_outside_mask [OF bits, of SNAPSHOT_END] by (simp add: SNAPSHOT_END_def)
  have gate: "update_graph (process_candle np ft c2 s) = update_graph (process_candle np ft c1 s)"
    by (simp add: process_candle_update_graph snapshot_gate_eq bg en)
  have b2: "build_data_row ft c2 =
              map_option (\<lambda>r. r \<lparr> row_eventFlags := ?f2 \<rparr>) (build_data_row ft c1)"
    using build_data_row_flags [where ft = ft and c = c1 and f = ?f2] assms(1) by simp
  have store: "df (process_candle np ft c2 s) = map ?upd (df (process_candle np ft c1 s))"
  proof (cases "?f1 AND REMOVE_EVENT = 0")
    case False
    then show ?thesis
      using rm by (simp add: process_candle_df merge_candle_remove)
  next
    case True
    then have True2: "?f2 AND REMOVE_EVENT = 0" using rm by simp
    show ?thesis
    proof (cases "build_data_row ft c1")
      case None
      then have "build_data_row ft c2 = None" using b2 by simp
      then show ?thesis
        using None True True2 by (simp add: process_candle_df merge_candle_failed)
    next
      case (Some r1)
      then have s2: "build_data_row ft c2 = Some (r1 \<lparr> row_eventFlags := ?f2 \<rparr>)"
        using b2 by simp
      have u: "?upd = (\<lambda>x. if x = r1 then x \<lparr> row_eventFlags := ?f2 \<rparr> else x)"
        using True Some by auto
      have "df (process_candle np ft c2 s) =
              sort_values (drop_duplicates (df s @ [r1 \<lparr> row_eventFlags := ?f2 \<rparr>]))"
        by (simp add: process_candle_df merge_candle_decoded [OF True2 s2])
      moreover have "df (process_candle np ft c1 s) =
              sort_values (drop_duplicates (df s @ [r1]))"
        by (simp add: process_candle_df merge_candle_decoded [OF True Some])
      ultimately show ?thesis
        using merge_other_flags [OF Some, of "df s" ?f2] by (simp only: u)
    qed
  qed
  have erased: "map (\<lambda>x. x \<lparr> row_eventFlags := 0 \<rparr>) (df (process_candle np ft c2 s)) =
                map (\<lambda>x. x \<lparr> row_eventFlags := 0 \<rparr>) (df (process_candle np ft c1 s))"
    by (simp add: store)
  have empty: "(df (process_candle np ft c2 s) = []) = (df (process_candle np ft c1 s) = [])"
    by (simp add: store)
  have cols: "map row_vwap (df (process_candle np ft c2 s)) =
              map row_vwap (df (process_candle np ft c1 s))"
    "map row_volume (df (process_candle np ft c2 s)) =
     map row_volume (df (process_candle np ft c1 s))"
    by (simp_all add: store)
  have ind: "map snd (vwap np (df (process_candle np ft c2 s))) =
             map snd (vwap np (df (process_candle np ft c1 s)))"
    using cols by (rule vwap_values_cong)
  have len: "length (drawn (process_candle np ft c2 s)) =
             length (drawn (process_candle np ft c1 s))"
    using gate empty
    by (simp add: process_candle_drawn [of np ft c2 s] process_candle_drawn [of np ft c1 s])
  have vals: "map (map snd) (drawn (process_candle np ft c2 s)) =
              map (map snd) (drawn (process_candle np ft c1 s))"
    using gate empty ind
    by (simp add: process_candle_drawn [of np ft c2 s] process_candle_drawn [of np ft c1 s])
  show ?thesis using gate len vals store erased by blast
qed

theorem diagnostic_flags_do_not_steer_witness:
  "(candle_at 81 2000 2 20 :: real candle) = candle_at 0 2000 2 20
      \<lparr> candle_eventFlags := candle_eventFlags (candle_at 81 2000 2 20 :: real candle) \<rparr>
   \<and> candle_eventFlags (candle_at 0 2000 2 20)
       AND NOT (TX_PENDING OR SNAPSHOT_SNIP OR SNAPSHOT_MODE) =
     candle_eventFlags (candle_at 81 2000 2 20)
       AND NOT (TX_PENDING OR SNAPSHOT_SNIP OR SNAPSHOT_MODE)
   \<and> update_graph (process_candle (\<lparr>np_mul = (*), np_add = (+), np_div = (/)\<rparr> :: real numpy) Some (candle_at 81 2000 2 20)
        (state_with [row_at 0 1000 1 10] True)) =
     update_graph (process_candle (\<lparr>np_mul = (*), np_add = (+), np_div = (/)\<rparr> :: real numpy) Some (candle_at 0 2000 2 20)
        (state_with [row_at 0 1000 1 10] True))
   \<and> df (process_candle (\<lparr>np_mul = (*), np_add = (+), np_div = (/)\<rparr> :: real numpy) Some (candle_at 0 2000 2 20)
        (state_with [row_at 0 1000 1 10] True)) =
     [row_at 0 1000 1 10, row_at 0 2000 2 20]
   \<and> df (process_candle (\<lparr>np_mul = (*), np_add = (+), np_div = (/)\<rparr> :: real numpy) Some (candle_at 81 2000 2 20)
        (state_with [row_at 0 1000 1 10] True)) =
     [row_at 0 1000 1 10, row_at 81 2000 2 20]"
proof -
  have h1: "(candle_at 81 2000 2 20 :: real candle) = candle_at 0 2000 2 20
      \<lparr> candle_eventFlags := candle_eventFlags (candle_at 81 2000 2 20 :: real candle) \<rparr>"
    by (simp add: candle_at_def sample_candle_def)
  have h2: "candle_eventFlags (candle_at 0 2000 2 20)
       AND NOT (TX_PENDING OR SNAPSHOT_SNIP OR SNAPSHOT_MODE) =
     candle_eventFlags (candle_at 81 2000 2 20)
       AND NOT (TX_PENDING OR SNAPSHOT_SNIP OR SNAPSHOT_MODE)"
    by (simp add: TX_PENDING_def SNAPSHOT_SNIP_def SNAPSHOT_MODE_def)
  have d1: "df (process_candle (\<lparr>np_mul = (*), np_add = (+), np_div = (/)\<rparr> :: real numpy) Some (candle_at 0 2000 2 20)
        (state_with [row_at 0 1000 1 10] True)) =
     [row_at 0 1000 1 10, row_at 0 2000 2 20]"
    by (simp add: process_candle_df merge_candle_decoded [OF _ build_candle_at]
          sort_values_def)
  have e: "(row_at 0 2000 2 20 :: real data_row) \<lparr> row_eventFlags := 81 \<rparr> =
             row_at 81 2000 2 20"
    "(row_at 0 1000 1 10 :: real data_row) \<noteq> row_at 0 2000 2 20"
    by (simp_all add: row_at_def sample_row_def)
  show ?thesis
    using h1 h2 d1 e diagnostic_flags_do_not_steer [OF h1 h2, where np = "(\<lparr>np_mul = (*), np_add = (+), np_div = (/)\<rparr> :: real numpy)" and ft = Some
        and s = "state_with [row_at 0 1000 1 10] True"]
    by (simp add: build_candle_at)
qed

text \<open>
  The claim as stated fails: two candles that differ only in TX_PENDING, processed from
  the initial state, leave different stores.
\<close>

theorem diagnostic_flags_counterexample:
  "candle_at 1 2000 2 20 = candle_at 0 2000 2 20 \<lparr> candle_eventFlags := 1 \<rparr>
   \<and> TX_PENDING = 1
   \<and> df (process_candle (\<lparr>np_mul = (*), np_add = (+), np_div = (/)\<rparr> :: real numpy) Some (candle_at 0 2000 2 20) initial_state) = [row_at 0 2000 2 20]
   \<and> df (process_candle (\<lparr>np_mul = (*), np_add = (+), np_div = (/)\<rparr> :: real numpy) Some (candle_at 1 2000 2 20) initial_state) = [row_at 1 2000 2 20]
   \<and> df (process_candle (\<lparr>np_mul = (*), np_add = (+), np_div = (/)\<rparr> :: real numpy) Some (candle_at 0 2000 2 20) initial_state) \<noteq>
     df (process_candle (\<lparr>np_mul = (*), np_add = (+), np_div = (/)\<rparr> :: real numpy) Some (candle_at 1 2000 2 20) initial_state)"
proof -
  have d: "df (process_candle (\<lparr>np_mul = (*), np_add = (+), np_div = (/)\<rparr> :: real numpy) Some (candle_at f 2000 2 20) initial_state) =
             [row_at f 2000 2 20]" if "f AND REMOVE_EVENT = 0" for f
    using that
    by (simp add: process_candle_df merge_candle_decoded [OF _ build_candle_at]
          sort_values_def initial_state_def)
  have d0: "df (process_candle (\<lparr>np_mul = (*), np_add = (+), np_div = (/)\<rparr> :: real numpy) Some (candle_at 0 2000 2 20) initial_state) =
              [row_at 0 2000 2 20]"
    using d [of 0] by simp
  have d1: "df (process_candle (\<lparr>np_mul = (*), np_add = (+), np_div = (/)\<rparr> :: real numpy) Some (candle_at 1 2000 2 20) initial_state) =
              [row_at 1 2000 2 20]"
    using d [of 1] by (simp add: REMOVE_EVENT_def)
  have "row_at 0 2000 2 20 \<noteq> row_at 1 2000 2 20"
    by (simp add: row_at_def sample_row_def)
  then show ?thesis
    using d0 d1 by (simp add: candle_at_def sample_candle_def TX_PENDING_def)
qed

section \<open>Rounding\<close>

lemma exp_search_lower: "lo \<le> hi + 1 \<Longrightarrow> lo \<le> exp_search n lo hi a"
proof (induction n arbitrary: lo hi)
  case 0
  show ?case by simp
next
  case (Suc n)
  let ?mid = "(lo + hi + 1) div 2"
  have m: "lo \<le> ?mid" "?mid \<le> hi + 1" using Suc.prems by auto
  show ?case
  proof (cases "2 powi ?mid \<le> a")
    case True
    have "?mid \<le> exp_search n ?mid hi a" using m by (intro Suc.IH) simp
    then show ?thesis using True m by (simp add: Let_def)
  next
    case False
    have "lo \<le> exp_search n lo (?mid - 1) a" using m by (intro Suc.IH) simp
    then show ?thesis using False by (simp add: Let_def)
  qed
qed

lemma exp_search_below:
  "lo \<le> hi + 1 \<Longrightarrow> exp_search n lo hi a = lo \<or> 2 powi (exp_search n lo hi a) \<le> a"
proof (induction n arbitrary: lo hi)
  case 0
  show ?case by simp
next
  case (Suc n)
  let ?mid = "(lo + hi + 1) div 2"
  have m: "lo \<le> ?mid" "?mid \<le> hi + 1" using Suc.prems by auto
  show ?case
  proof (cases "2 powi ?mid \<le> a")
    case True
    have "exp_search n ?mid hi a = ?mid \<or> 2 powi (exp_search n ?mid hi a) \<le> a"
      using m by (intro Suc.IH) simp
    then show ?thesis using True by (auto simp: Let_def)
  next
    case False
    have "exp_search n lo (?mid - 1) a = lo \<or> 2 powi (exp_search n lo (?mid - 1) a) \<le> a"
      using m by (intro Suc.IH) simp
    then show ?thesis using False by (simp add: Let_def)
  qed
qed

lemma exp_search_exact:
  assumes "2 powi e \<le> a" and "a < 2 powi (e + 1)"
    and "lo \<le> e" and "e \<le> hi" and "hi - lo < 2 ^ n"
  shows "exp_search n lo hi a = e"
  using assms(3-5)
proof (induction n arbitrary: lo hi)
  case 0
  then show ?case by simp
next
  case (Suc n)
  let ?mid = "(lo + hi + 1) div 2"
  show ?case
  proof (cases "2 powi ?mid \<le> a")
    case True
    have "?mid \<le> e"
    proof (rule ccontr)
      assume "\<not> ?mid \<le> e"
      then have "e + 1 \<le> ?mid" by simp
      then have "(2::real) powi (e + 1) \<le> 2 powi ?mid"
        by (intro power_int_increasing) simp_all
      then show False using True assms(2) by simp
    qed
    moreover have "hi - ?mid < 2 ^ n" using Suc.prems by auto
    ultimately have "exp_search n ?mid hi a = e"
      using Suc.prems by (intro Suc.IH) simp_all
    then show ?thesis using True by (simp add: Let_def)
  next
    case False
    have "e < ?mid"
    proof (rule ccontr)
      assume "\<not> e < ?mid"
      then have "?mid \<le> e" by simp
      then have "(2::real) powi ?mid \<le> 2 powi e"
        by (intro power_int_increasing) simp_all
      then show False using False assms(1) by simp
    qed
    moreover have "?mid - 1 - lo < 2 ^ n" using Suc.prems by auto
    ultimately have "exp_search n lo (?mid - 1) a = e"
      using Suc.prems by (intro Suc.IH) simp_all
    then show ?thesis using False by (simp add: Let_def)
  qed
qed

lemma exponent_lower: "- 1022 \<le> exponent a"
  unfolding exponent_def by (rule exp_search_lower) simp

lemma exponent_below: "exponent a = - 1022 \<or> 2 powi (exponent a) \<le> a"
  unfolding exponent_def by (rule exp_search_below) simp

lemma exponent_exact:
  assumes "2 powi e \<le> a" and "a < 2 powi (e + 1)" and "- 1022 \<le> e" and "e \<le> 1023"
  shows "exponent a = e"
  unfolding exponent_def using assms by (intro exp_search_exact) simp_all

lemma ulp_pos: "0 < ulp a"
  by (simp add: ulp_def)

lemma least_positive_pos: "0 < least_positive"
  by (simp add: least_positive_def)

lemma ulp_lower: "least_positive \<le> ulp a"
  unfolding least_positive_def ulp_def
  using exponent_lower [of a] by (intro power_int_increasing) simp_all

lemma ulp_below:
  assumes "least_positive \<le> z"
  shows "ulp z \<le> z"
proof -
  from exponent_below [of z] show ?thesis
  proof
    assume "exponent z = - 1022"
    then have "ulp z = least_positive"
      by (simp add: ulp_def least_positive_def)
    then show ?thesis using assms by simp
  next
    assume b: "2 powi exponent z \<le> z"
    have "(2::real) powi (exponent z - 52) \<le> 2 powi exponent z"
      by (intro power_int_increasing) simp_all
    then show ?thesis using b by (simp add: ulp_def)
  qed
qed

lemma rne_of_int: "rne (of_int k) = k"
  by (simp add: rne_def)

lemma rne_nonneg: "0 \<le> y \<Longrightarrow> 0 \<le> rne y"
  by (auto simp: rne_def Let_def)

lemma rne_ge_one: "1 \<le> y \<Longrightarrow> 1 \<le> rne y"
proof -
  assume "1 \<le> y"
  then have "1 \<le> \<lfloor>y\<rfloor>" by simp
  then show ?thesis by (auto simp: rne_def Let_def)
qed

text \<open>
  A rounded magnitude is zero or at least the least positive value, and it is not zero
  when the magnitude is at least that value.
\<close>

lemma round_mag_grain:
  assumes "0 \<le> a"
  shows "round_mag a = 0 \<or> least_positive \<le> round_mag a"
proof (cases "rne (a / ulp a) = 0")
  case True
  then show ?thesis by (simp add: round_mag_def)
next
  case False
  have "0 \<le> a / ulp a" using assms ulp_pos [of a] by simp
  then have "0 \<le> rne (a / ulp a)" by (rule rne_nonneg)
  then have "1 \<le> rne (a / ulp a)" using False by simp
  then have "(1::real) \<le> of_int (rne (a / ulp a))" by simp
  then have "1 * ulp a \<le> of_int (rne (a / ulp a)) * ulp a"
    using ulp_pos [of a] by (intro mult_right_mono) simp_all
  then have "least_positive \<le> round_mag a"
    using ulp_lower [of a] by (simp add: round_mag_def)
  then show ?thesis ..
qed

lemma round_mag_pos:
  assumes "least_positive \<le> a"
  shows "0 < round_mag a"
proof -
  have "ulp a \<le> a" using assms by (rule ulp_below)
  then have "1 \<le> a / ulp a" using ulp_pos [of a] by (simp add: le_divide_eq)
  then have "1 \<le> rne (a / ulp a)" by (rule rne_ge_one)
  then have "(0::real) < of_int (rne (a / ulp a))" by simp
  then show ?thesis
    unfolding round_mag_def using ulp_pos [of a] by (intro mult_pos_pos)
qed

lemma round64_nonneg:
  assumes "0 \<le> z"
  shows "round64 z = PosInf \<or> round64 z = Finite 0 \<or>
         (\<exists>m. round64 z = Finite m \<and> least_positive \<le> m)"
proof -
  have a: "\<bar>z\<bar> = z" "\<not> z < 0" using assms by simp_all
  from round_mag_grain [OF assms] show ?thesis
  proof
    assume "round_mag z = 0"
    then show ?thesis
      using least_positive_pos
      by (simp add: round64_def Let_def a signed_zero_def signed_inf_def)
  next
    assume "least_positive \<le> round_mag z"
    then show ?thesis
      using least_positive_pos
      by (auto simp: round64_def Let_def a signed_zero_def signed_inf_def)
  qed
qed

lemma round64_not_zero:
  assumes "least_positive \<le> z"
  shows "\<not> is_zero (round64 z)"
proof -
  have z0: "0 < z" using assms least_positive_pos by linarith
  then have a: "\<bar>z\<bar> = z" "\<not> z < 0" by simp_all
  have "0 < round_mag z" using assms by (rule round_mag_pos)
  then show ?thesis
    by (simp add: round64_def Let_def a signed_inf_def)
qed

text \<open>Rounding a real whose binade is known, for evaluation.\<close>

lemma rne_upper: "y \<le> of_int k \<Longrightarrow> rne y \<le> k"
proof -
  assume y: "y \<le> of_int k"
  then have f: "\<lfloor>y\<rfloor> \<le> k" by (simp add: floor_le_iff)
  show ?thesis
  proof (cases "\<lfloor>y\<rfloor> = k")
    case True
    then have "y - of_int \<lfloor>y\<rfloor> \<le> 0" using y by simp
    then show ?thesis using True by (simp add: rne_def Let_def)
  next
    case False
    then have "\<lfloor>y\<rfloor> + 1 \<le> k" using f by simp
    then show ?thesis by (auto simp: rne_def Let_def)
  qed
qed

lemma round64_in_binade:
  assumes "2 powi e \<le> \<bar>x\<bar> \<and> \<bar>x\<bar> < 2 powi (e + 1) \<and> - 1022 \<le> e \<and> e \<le> 1022 \<and>
           rne (\<bar>x\<bar> / 2 powi (e - 52)) = n \<and> 0 < n \<and> of_int n * 2 powi (e - 52) = m"
  shows "round64 x = Finite (if x < 0 then - m else m)"
proof -
  let ?q = "(2::real) powi (e - 52)"
  have q: "0 < ?q" by simp
  have "exponent \<bar>x\<bar> = e" using assms by (intro exponent_exact) simp_all
  then have rm: "round_mag \<bar>x\<bar> = m"
    using assms by (simp add: round_mag_def ulp_def)
  have pos: "0 < m"
  proof -
    have "(0::real) < of_int n" using assms by simp
    then have "0 < of_int n * ?q" using q by (intro mult_pos_pos)
    then show ?thesis using assms by simp
  qed
  define c :: real where "c = 2 powi 53"
  have c_int: "c = of_int (2 ^ 53)" by (simp add: c_def)
  have "(2::real) powi (53 + (e - 52)) = 2 powi 53 * 2 powi (e - 52)"
    by (rule power_int_add) simp
  moreover have "(2::real) powi (e + 1) = 2 powi (53 + (e - 52))"
    by (rule arg_cong [where f = "\<lambda>k. 2 powi k"]) simp
  ultimately have split: "c * ?q = 2 powi (e + 1)"
    by (simp only: c_def)
  have "\<bar>x\<bar> / ?q \<le> 2 powi (e + 1) / ?q"
    using assms q by (intro divide_right_mono) simp_all
  also have "2 powi (e + 1) / ?q = c"
    using q by (simp only: split [symmetric]) simp
  finally have "\<bar>x\<bar> / ?q \<le> of_int (2 ^ 53)" by (simp only: c_int)
  then have "rne (\<bar>x\<bar> / ?q) \<le> 2 ^ 53" by (rule rne_upper)
  then have "n \<le> 2 ^ 53" using assms by simp
  then have "(of_int n :: real) \<le> of_int (2 ^ 53)" by (simp only: of_int_le_iff)
  then have "of_int n \<le> c" by (simp only: c_int)
  then have "of_int n * ?q \<le> c * ?q"
    using q by (intro mult_right_mono) simp_all
  also have "c * ?q = (2::real) powi (e + 1)" by (rule split)
  also have "\<dots> \<le> 2 powi 1023"
    using assms by (intro power_int_increasing) simp_all
  also have "\<dots> < (2::real) powi 1024"
    by (intro power_int_strict_increasing) simp_all
  finally have "m < overflow_bound" using assms by (simp add: overflow_bound_def)
  then show ?thesis
    using rm pos by (simp add: round64_def Let_def)
qed

lemma round64_3: "round64 (3) = Finite (3)"
proof -
  have "round64 (3) = Finite (if (3 :: real) < 0 then - (3) else 3)"
    by (rule round64_in_binade [where e = "1" and n = "6755399441055744"]) code_simp
  then show ?thesis by simp
qed

lemma round64_5: "round64 (5) = Finite (5)"
proof -
  have "round64 (5) = Finite (if (5 :: real) < 0 then - (5) else 5)"
    by (rule round64_in_binade [where e = "2" and n = "5629499534213120"]) code_simp
  then show ?thesis by simp
qed

lemma round64_6: "round64 (6) = Finite (6)"
proof -
  have "round64 (6) = Finite (if (6 :: real) < 0 then - (6) else 6)"
    by (rule round64_in_binade [where e = "2" and n = "6755399441055744"]) code_simp
  then show ?thesis by simp
qed

lemma round64_10: "round64 (10) = Finite (10)"
proof -
  have "round64 (10) = Finite (if (10 :: real) < 0 then - (10) else 10)"
    by (rule round64_in_binade [where e = "3" and n = "5629499534213120"]) code_simp
  then show ?thesis by simp
qed

lemma round64_30: "round64 (30) = Finite (30)"
proof -
  have "round64 (30) = Finite (if (30 :: real) < 0 then - (30) else 30)"
    by (rule round64_in_binade [where e = "4" and n = "8444249301319680"]) code_simp
  then show ?thesis by simp
qed

lemma round64_40: "round64 (40) = Finite (40)"
proof -
  have "round64 (40) = Finite (if (40 :: real) < 0 then - (40) else 40)"
    by (rule round64_in_binade [where e = "5" and n = "5629499534213120"]) code_simp
  then show ?thesis by simp
qed

lemma round64_50: "round64 (50) = Finite (50)"
proof -
  have "round64 (50) = Finite (if (50 :: real) < 0 then - (50) else 50)"
    by (rule round64_in_binade [where e = "5" and n = "7036874417766400"]) code_simp
  then show ?thesis by simp
qed

lemma round64_90: "round64 (90) = Finite (90)"
proof -
  have "round64 (90) = Finite (if (90 :: real) < 0 then - (90) else 90)"
    by (rule round64_in_binade [where e = "6" and n = "6333186975989760"]) code_simp
  then show ?thesis by simp
qed

lemma round64_140: "round64 (140) = Finite (140)"
proof -
  have "round64 (140) = Finite (if (140 :: real) < 0 then - (140) else 140)"
    by (rule round64_in_binade [where e = "7" and n = "4925812092436480"]) code_simp
  then show ?thesis by simp
qed

lemma round64_150: "round64 (150) = Finite (150)"
proof -
  have "round64 (150) = Finite (if (150 :: real) < 0 then - (150) else 150)"
    by (rule round64_in_binade [where e = "7" and n = "5277655813324800"]) code_simp
  then show ?thesis by simp
qed

lemma round64_50_3: "round64 (50 / 3) = Finite (4691249611844267 / 281474976710656)"
proof -
  have "round64 (50 / 3) = Finite (if (50 / 3 :: real) < 0 then - (4691249611844267 / 281474976710656) else 4691249611844267 / 281474976710656)"
    by (rule round64_in_binade [where e = "4" and n = "4691249611844267"]) code_simp
  then show ?thesis by simp
qed

lemma round64_70_3: "round64 (70 / 3) = Finite (6567749456581973 / 281474976710656)"
proof -
  have "round64 (70 / 3) = Finite (if (70 / 3 :: real) < 0 then - (6567749456581973 / 281474976710656) else 6567749456581973 / 281474976710656)"
    by (rule round64_in_binade [where e = "4" and n = "6567749456581973"]) code_simp
  then show ?thesis by simp
qed

section \<open>Sums, products and quotients of binary64\<close>

lemma round64_zero: "round64 0 = Finite 0"
  by (simp add: round64_def round_mag_def rne_def signed_zero_def overflow_bound_def)

lemma mul64_commute: "mul64 x y = mul64 y x"
  by (cases "sign_bit x"; cases "sign_bit y") (auto simp: mul64_def mult.commute)

lemma float64_grained:
  assumes "is_float64 v" and "is_nonneg v"
  shows "grained v"
proof (cases v)
  case (Finite x)
  then have x: "0 \<le> x" and r: "round64 x = Finite x" using assms by simp_all
  from round64_nonneg [OF x] have "x = 0 \<or> least_positive \<le> x"
    using r by auto
  then show ?thesis using Finite x by auto
qed simp_all

text \<open>
  Sums of numbers that are not negative: the sum is not negative and grained, and it
  is zero only when both numbers are.
\<close>

lemma add64_nonneg:
  assumes "is_nonneg a" and "grained a" and "is_nonneg b" and "grained b"
  shows "is_nonneg (add64 a b) \<and> grained (add64 a b)"
proof (cases "is_inf a \<or> is_inf b")
  case True
  then show ?thesis
    using assms(1,3) by (cases a; cases b) (simp_all add: add64_def)
next
  case False
  then have fin: "\<not> is_inf a" "\<not> is_inf b" "\<not> is_nan a" "\<not> is_nan b"
    using assms(1,3) by (cases a; cases b; simp)+
  have ra: "0 \<le> real_of a" using assms(1) by (cases a) simp_all
  have rb: "0 \<le> real_of b" using assms(3) by (cases b) simp_all
  show ?thesis
  proof (cases "a = NegZero \<and> b = NegZero")
    case True
    then show ?thesis by (simp add: add64_def)
  next
    case nz: False
    show ?thesis
    proof (cases "real_of a + real_of b = 0")
      case True
      then show ?thesis using fin nz by (simp add: add64_def)
    next
      case s: False
      have "add64 a b = round64 (real_of a + real_of b)"
        using fin nz s by (auto simp: add64_def)
      moreover have "0 \<le> real_of a + real_of b" using ra rb by simp
      ultimately show ?thesis
        using round64_nonneg [of "real_of a + real_of b"] least_positive_pos by auto
    qed
  qed
qed

lemma real_of_grained:
  assumes "is_nonneg a" and "grained a" and "\<not> is_inf a"
  shows "(real_of a = 0 \<and> is_zero a) \<or> least_positive \<le> real_of a"
  using assms by (cases a) auto

lemma add64_zero:
  assumes "is_nonneg a" and "grained a" and "is_nonneg b" and "grained b"
    and "is_zero (add64 a b)"
  shows "is_zero a \<and> is_zero b"
proof -
  have fin: "\<not> is_inf a" "\<not> is_inf b" "\<not> is_nan a" "\<not> is_nan b"
    using assms(1,3,5) by (cases a; cases b; simp add: add64_def)+
  from real_of_grained [OF assms(1,2) fin(1)] real_of_grained [OF assms(3,4) fin(2)]
  consider "is_zero a \<and> is_zero b"
    | "least_positive \<le> real_of a + real_of b" "real_of a + real_of b \<noteq> 0"
    using least_positive_pos by fastforce
  then show ?thesis
  proof cases
    case 1
    then show ?thesis .
  next
    case 2
    then have "\<not> (a = NegZero \<and> b = NegZero)" by auto
    then have "add64 a b = round64 (real_of a + real_of b)"
      using fin 2 by (auto simp: add64_def)
    then have "\<not> is_zero (add64 a b)"
      using round64_not_zero [OF 2(1)] by simp
    then show ?thesis using assms(5) by simp
  qed
qed

lemma foldl_add64_zero:
  assumes "is_nonneg a \<and> grained a"
    and "\<forall>x\<in>set xs. is_nonneg x \<and> grained x"
    and "is_zero (foldl add64 a xs)"
  shows "is_zero a \<and> (\<forall>x\<in>set xs. is_zero x)"
  using assms
proof (induction xs arbitrary: a)
  case Nil
  then show ?case by simp
next
  case (Cons x xs)
  have ax: "is_nonneg (add64 a x) \<and> grained (add64 a x)"
    using Cons.prems(1,2) by (intro add64_nonneg) simp_all
  have "is_zero (add64 a x) \<and> (\<forall>y\<in>set xs. is_zero y)"
    using Cons.IH [OF ax] Cons.prems(2,3) by simp
  moreover from this have "is_zero a \<and> is_zero x"
    using Cons.prems(1,2) by (intro add64_zero) simp_all
  ultimately show ?case by simp
qed

text \<open>Products with zero, and sums and quotients of zeros and NaN.\<close>

lemma mul64_zero: "is_zero q \<Longrightarrow> is_zero (mul64 p q) \<or> is_nan (mul64 p q)"
  by (cases p; cases q) (simp_all add: mul64_def signed_zero_def)

lemma add64_zero_or_nan:
  assumes "is_zero a \<or> is_nan a" and "is_zero b \<or> is_nan b"
  shows "is_zero (add64 a b) \<or> is_nan (add64 a b)"
  using assms by (cases a; cases b) (simp_all add: add64_def)

lemma foldl_add64_zero_or_nan:
  assumes "is_zero a \<or> is_nan a" and "\<forall>x\<in>set xs. is_zero x \<or> is_nan x"
  shows "is_zero (foldl add64 a xs) \<or> is_nan (foldl add64 a xs)"
  using assms
proof (induction xs arbitrary: a)
  case Nil
  then show ?case by simp
next
  case (Cons x xs)
  have "is_zero (add64 a x) \<or> is_nan (add64 a x)"
    using Cons.prems by (intro add64_zero_or_nan) simp_all
  then show ?case using Cons.IH [of "add64 a x"] Cons.prems(2) by simp
qed

lemma add64_zeros: "is_zero a \<Longrightarrow> is_zero b \<Longrightarrow> is_zero (add64 a b)"
  by (cases a; cases b) (simp_all add: add64_def)

lemma foldl_add64_zeros:
  "is_zero a \<Longrightarrow> \<forall>x\<in>set xs. is_zero x \<Longrightarrow> is_zero (foldl add64 a xs)"
  by (induction xs arbitrary: a) (simp_all add: add64_zeros)

lemma div64_by_zero:
  assumes "is_zero a \<or> is_nan a" and "is_zero b"
  shows "div64 a b = NaN"
  using assms by (cases a; cases b) (simp_all add: div64_def)

lemma cumsum_as_fold:
  assumes "i < length xs"
  shows "\<exists>y ys. take (Suc i) xs = y # ys \<and> cumsum add xs ! i = foldl add y ys"
proof (cases xs)
  case Nil
  then show ?thesis using assms by simp
next
  case (Cons x zs)
  show ?thesis
  proof (cases i)
    case 0
    then show ?thesis using Cons by simp
  next
    case (Suc j)
    then have "j < length zs" using assms Cons by simp
    then show ?thesis using Cons Suc by (simp add: cumsum_from_nth)
  qed
qed

text \<open>Where every volume up to a position is zero, the indicator there is NaN.\<close>

lemma vwap_no_volume:
  assumes i: "i < length rows"
    and z: "\<forall>r\<in>set (take (Suc i) rows). is_zero (row_volume r)"
  shows "snd (vwap float64_ops rows ! i) = NaN"
proof -
  let ?pq = "map (\<lambda>r. mul64 (row_vwap r) (row_volume r)) rows"
  let ?q = "map row_volume rows"
  obtain y ys where n: "take (Suc i) ?pq = y # ys" "cumsum add64 ?pq ! i = foldl add64 y ys"
    using cumsum_as_fold [of i ?pq add64] i by auto
  have "\<forall>x\<in>set (take (Suc i) ?pq). is_zero x \<or> is_nan x"
    using z mul64_zero by (auto simp: take_map)
  then have "is_zero (foldl add64 y ys) \<or> is_nan (foldl add64 y ys)"
    unfolding n(1) by (intro foldl_add64_zero_or_nan) simp_all
  then have num: "is_zero (cumsum add64 ?pq ! i) \<or> is_nan (cumsum add64 ?pq ! i)"
    by (simp only: n(2))
  obtain v vs where d: "take (Suc i) ?q = v # vs" "cumsum add64 ?q ! i = foldl add64 v vs"
    using cumsum_as_fold [of i ?q add64] i by auto
  have "\<forall>x\<in>set (take (Suc i) ?q). is_zero x"
    using z by (auto simp: take_map)
  then have "is_zero v" "\<forall>x\<in>set vs. is_zero x"
    unfolding d(1) by simp_all
  then have "is_zero (foldl add64 v vs)"
    by (rule foldl_add64_zeros)
  then have den: "is_zero (cumsum add64 ?q ! i)"
    by (simp only: d(2))
  have "snd (vwap float64_ops rows ! i) =
          div64 (cumsum add64 ?pq ! i) (cumsum add64 ?q ! i)"
    using vwap_nth [OF i, of float64_ops] by (simp add: float64_ops_def)
  then show ?thesis
    using div64_by_zero [OF num den] by simp
qed

text \<open>
  Where the volumes up to a position are values of the format and not negative, and
  their running sum is zero, every one of them is zero.
\<close>

lemma zero_running_volume:
  assumes i: "i < length rows"
    and v: "\<forall>r\<in>set (take (Suc i) rows). is_float64 (row_volume r) \<and> is_nonneg (row_volume r)"
    and s: "is_zero (cumsum add64 (map row_volume rows) ! i)"
  shows "\<forall>r\<in>set (take (Suc i) rows). is_zero (row_volume r)"
proof -
  let ?q = "map row_volume rows"
  obtain y ys where d: "take (Suc i) ?q = y # ys" "cumsum add64 ?q ! i = foldl add64 y ys"
    using cumsum_as_fold [of i ?q add64] i by auto
  have "\<forall>x\<in>set (take (Suc i) ?q). is_nonneg x \<and> grained x"
    using v float64_grained by (auto simp: take_map)
  then have g: "is_nonneg y \<and> grained y" "\<forall>x\<in>set ys. is_nonneg x \<and> grained x"
    unfolding d(1) by simp_all
  have "is_zero (foldl add64 y ys)" using s by (simp only: d(2))
  with g have "is_zero y \<and> (\<forall>x\<in>set ys. is_zero x)"
    by (intro foldl_add64_zero)
  then have "\<forall>x\<in>set (take (Suc i) ?q). is_zero x"
    unfolding d(1) by simp
  then show ?thesis by (simp add: take_map)
qed

section \<open>The indicator on binary64\<close>

lemma vwap_1_2_3:
  "map snd (vwap float64_ops
      [row_at 0 1000 (Finite 1) (Finite 10), row_at 0 2000 (Finite 2) (Finite 20),
       row_at 0 3000 (Finite 3) (Finite 30)]) =
   [Finite 10, Finite (4691249611844267 / 281474976710656),
    Finite (6567749456581973 / 281474976710656)]"
  by (simp add: vwap_def Let_def row_at_def sample_row_def float64_ops_def
        mul64_def add64_def div64_def round64_3 round64_6 round64_10 round64_40
        round64_50 round64_90 round64_140 round64_50_3 round64_70_3)

lemma vwap_0_0_5:
  "map snd (vwap float64_ops
      [row_at 0 1000 (Finite 0) (Finite 10), row_at 0 2000 (Finite 0) (Finite 20),
       row_at 0 3000 (Finite 5) (Finite 30)]) =
   [NaN, NaN, Finite 30]"
  by (simp add: vwap_def Let_def row_at_def sample_row_def float64_ops_def
        mul64_def add64_def div64_def signed_zero_def round64_5 round64_30 round64_150)

text \<open>
  C5, as the code has it. \<open>vwap\<close> keeps the rows and gives one value for each; a
  publish draws \<open>vwap\<close> of the whole store. On binary64 the value at every position
  \<open>i\<close> is the quotient of the two sums of the specification, over the rows \<open>0..i\<close> and
  from the left, where every product, every sum and the quotient is rounded to the
  nearest value of the format. For the volumes 1, 2, 3 and the vwaps 10, 20, 30 the
  value at the last position is 6567749456581973 / 2 ^ 48, which is 70/3 rounded.
\<close>

theorem vwap_is_cumulative_average:
  "(i < length rows \<longrightarrow>
      spec_indicator float64_ops rows i = Some (snd (vwap float64_ops rows ! i))
      \<and> fst (vwap float64_ops rows ! i) = rows ! i)
   \<and> length (vwap np d) = length d
   \<and> (update_graph (process_candle np ft c s) \<and> df (process_candle np ft c s) \<noteq> [] \<longrightarrow>
        last (drawn (process_candle np ft c s)) = vwap np (df (process_candle np ft c s)))
   \<and> snd (last (vwap float64_ops
        [row_at 0 1000 (Finite 1) (Finite 10), row_at 0 2000 (Finite 2) (Finite 20),
         row_at 0 3000 (Finite 3) (Finite 30)]))
       = Finite (6567749456581973 / 281474976710656)
   \<and> round64 (70 / 3) = Finite (6567749456581973 / 281474976710656)"
proof -
  have a: "i < length rows \<longrightarrow>
      spec_indicator float64_ops rows i = Some (snd (vwap float64_ops rows ! i))
      \<and> fst (vwap float64_ops rows ! i) = rows ! i"
  proof
    assume i: "i < length rows"
    have "spec_indicator float64_ops rows i = Some (snd (vwap float64_ops rows ! i))"
      using i by (intro vwap_nth_spec) (simp_all add: float64_ops_def mul64_commute)
    moreover have "fst (vwap float64_ops rows ! i) = rows ! i"
      using vwap_nth [OF i, of float64_ops] by simp
    ultimately show "spec_indicator float64_ops rows i =
        Some (snd (vwap float64_ops rows ! i)) \<and> fst (vwap float64_ops rows ! i) = rows ! i"
      by simp
  qed
  have b: "length (vwap np d) = length d" by (rule length_vwap)
  have c: "update_graph (process_candle np ft c s) \<and> df (process_candle np ft c s) \<noteq> [] \<longrightarrow>
        last (drawn (process_candle np ft c s)) = vwap np (df (process_candle np ft c s))"
    using process_candle_drawn [of np ft c s] by simp
  let ?rows = "[row_at 0 1000 (Finite 1) (Finite 10), row_at 0 2000 (Finite 2) (Finite 20),
         row_at 0 3000 (Finite 3) (Finite 30)]"
  have "snd (last (vwap float64_ops ?rows)) = last (map snd (vwap float64_ops ?rows))"
    by (rule last_map [symmetric]) (simp add: vwap_def Let_def)
  then have e: "snd (last (vwap float64_ops ?rows)) =
      Finite (6567749456581973 / 281474976710656)"
    by (simp only: vwap_1_2_3) simp
  from a b c e round64_70_3 show ?thesis by (intro conjI)
qed

theorem vwap_is_cumulative_average_witness:
  "(2::nat) < length [row_at 0 1000 (Finite 1) (Finite 10),
       row_at 0 2000 (Finite 2) (Finite 20), row_at 0 3000 (Finite 3) (Finite 30)]
   \<and> spec_indicator float64_ops [row_at 0 1000 (Finite 1) (Finite 10),
       row_at 0 2000 (Finite 2) (Finite 20), row_at 0 3000 (Finite 3) (Finite 30)] 2
     = Some (Finite (6567749456581973 / 281474976710656))
   \<and> update_graph (process_candle float64_ops Some (candle_at 8 3000 (Finite 3) (Finite 30))
        (state_with [row_at 0 1000 (Finite 1) (Finite 10),
                     row_at 0 2000 (Finite 2) (Finite 20)] False))
   \<and> df (process_candle float64_ops Some (candle_at 8 3000 (Finite 3) (Finite 30))
        (state_with [row_at 0 1000 (Finite 1) (Finite 10),
                     row_at 0 2000 (Finite 2) (Finite 20)] False)) \<noteq> []
   \<and> map fst (last (drawn (process_candle float64_ops Some
        (candle_at 8 3000 (Finite 3) (Finite 30))
        (state_with [row_at 0 1000 (Finite 1) (Finite 10),
                     row_at 0 2000 (Finite 2) (Finite 20)] False))))
     = [row_at 0 1000 (Finite 1) (Finite 10), row_at 0 2000 (Finite 2) (Finite 20),
        row_at 8 3000 (Finite 3) (Finite 30)]"
proof -
  let ?rows = "[row_at 0 1000 (Finite 1) (Finite 10), row_at 0 2000 (Finite 2) (Finite 20),
         row_at 0 3000 (Finite 3) (Finite 30)]"
  let ?c = "candle_at 8 3000 (Finite 3) (Finite 30)"
  let ?s = "state_with [row_at 0 1000 (Finite 1) (Finite 10),
                     row_at 0 2000 (Finite 2) (Finite 20)] False"
  note w = vwap_is_cumulative_average [where i = 2 and rows = ?rows and np = float64_ops
      and ft = Some and c = ?c and s = ?s]
  have l: "(2::nat) < length ?rows" by simp
  have v: "snd (vwap float64_ops ?rows ! 2) = Finite (6567749456581973 / 281474976710656)"
  proof -
    have "snd (vwap float64_ops ?rows ! 2) = map snd (vwap float64_ops ?rows) ! 2"
      by (rule nth_map [symmetric]) (simp add: length_vwap)
    then show ?thesis by (simp only: vwap_1_2_3) simp
  qed
  have sp: "spec_indicator float64_ops ?rows 2 =
      Some (Finite (6567749456581973 / 281474976710656))"
    using mp [OF w [THEN conjunct1] l] v by simp
  have g: "update_graph (process_candle float64_ops Some ?c ?s)"
    by (simp add: process_candle_update_graph snapshot_gate_eq SNAPSHOT_END_def)
  have d: "df (process_candle float64_ops Some ?c ?s) =
             [row_at 0 1000 (Finite 1) (Finite 10), row_at 0 2000 (Finite 2) (Finite 20),
              row_at 8 3000 (Finite 3) (Finite 30)]"
    by (simp add: process_candle_df merge_candle_decoded [OF _ build_candle_at]
          REMOVE_EVENT_def sort_values_def)
  have ne: "df (process_candle float64_ops Some ?c ?s) \<noteq> []"
    by (simp only: d) simp
  have "last (drawn (process_candle float64_ops Some ?c ?s)) =
          vwap float64_ops (df (process_candle float64_ops Some ?c ?s))"
    using mp [OF w [THEN conjunct2, THEN conjunct2, THEN conjunct1]] g ne by blast
  then have p: "map fst (last (drawn (process_candle float64_ops Some ?c ?s))) =
      [row_at 0 1000 (Finite 1) (Finite 10), row_at 0 2000 (Finite 2) (Finite 20),
       row_at 8 3000 (Finite 3) (Finite 30)]"
    by (simp only: vwap_rows d)
  from l sp g ne p show ?thesis by (intro conjI)
qed

text \<open>
  The claim as stated fails: for the volumes 1, 2, 3 and the vwaps 10, 20, 30 the
  value at the last position is a value of the format, and not 70/3.
\<close>

theorem vwap_is_cumulative_average_counterexample:
  "snd (last (vwap float64_ops
        [row_at 0 1000 (Finite 1) (Finite 10), row_at 0 2000 (Finite 2) (Finite 20),
         row_at 0 3000 (Finite 3) (Finite 30)]))
     = Finite (6567749456581973 / 281474976710656)
   \<and> Finite (6567749456581973 / 281474976710656) \<noteq> Finite (70 / 3)"
proof -
  let ?rows = "[row_at 0 1000 (Finite 1) (Finite 10), row_at 0 2000 (Finite 2) (Finite 20),
         row_at 0 3000 (Finite 3) (Finite 30)]"
  have "snd (last (vwap float64_ops ?rows)) = last (map snd (vwap float64_ops ?rows))"
    by (rule last_map [symmetric]) (simp add: vwap_def Let_def)
  then have "snd (last (vwap float64_ops ?rows)) =
      Finite (6567749456581973 / 281474976710656)"
    by (simp only: vwap_1_2_3) simp
  moreover have "Finite (6567749456581973 / 281474976710656) \<noteq> Finite (70 / 3)"
    by simp
  ultimately show ?thesis by (intro conjI)
qed

text \<open>
  C6: \<open>vwap\<close> gives one value for every row and never fails: on binary64 a division by
  zero is a value, and zero by zero is NaN, the missing value of pandas. At a position
  where every volume up to it is zero the value is NaN, whatever the vwaps are. So it
  is at a position where the volumes up to it are values of the format and not
  negative, and their running sum is zero. At every position the value is the quotient
  of the two running sums at that position, whatever the values at other positions are.
\<close>

theorem zero_volume_gives_nan:
  assumes "i < length rows"
  shows "length (vwap float64_ops rows) = length rows
       \<and> ((\<forall>r\<in>set (take (Suc i) rows). is_zero (row_volume r)) \<longrightarrow>
            snd (vwap float64_ops rows ! i) = NaN)
       \<and> ((\<forall>r\<in>set (take (Suc i) rows).
               is_float64 (row_volume r) \<and> is_nonneg (row_volume r)) \<and>
           is_zero (cumsum add64 (map row_volume rows) ! i) \<longrightarrow>
            snd (vwap float64_ops rows ! i) = NaN)
       \<and> spec_indicator float64_ops rows i = Some (snd (vwap float64_ops rows ! i))"
proof -
  have a: "length (vwap float64_ops rows) = length rows" by (rule length_vwap)
  have b: "(\<forall>r\<in>set (take (Suc i) rows). is_zero (row_volume r)) \<longrightarrow>
            snd (vwap float64_ops rows ! i) = NaN"
    using vwap_no_volume [OF assms] by blast
  have c: "(\<forall>r\<in>set (take (Suc i) rows).
               is_float64 (row_volume r) \<and> is_nonneg (row_volume r)) \<and>
           is_zero (cumsum add64 (map row_volume rows) ! i) \<longrightarrow>
            snd (vwap float64_ops rows ! i) = NaN"
  proof (intro impI, elim conjE)
    assume "\<forall>r\<in>set (take (Suc i) rows). is_float64 (row_volume r) \<and> is_nonneg (row_volume r)"
      and "is_zero (cumsum add64 (map row_volume rows) ! i)"
    then have "\<forall>r\<in>set (take (Suc i) rows). is_zero (row_volume r)"
      by (rule zero_running_volume [OF assms])
    then show "snd (vwap float64_ops rows ! i) = NaN"
      by (rule vwap_no_volume [OF assms])
  qed
  have d: "spec_indicator float64_ops rows i = Some (snd (vwap float64_ops rows ! i))"
    using assms by (intro vwap_nth_spec) (simp_all add: float64_ops_def mul64_commute)
  from a b c d show ?thesis by (intro conjI)
qed

theorem zero_volume_gives_nan_witness:
  "(1::nat) < length [row_at 0 1000 (Finite 0) (Finite 10),
       row_at 0 2000 (Finite 0) (Finite 20), row_at 0 3000 (Finite 5) (Finite 30)]
   \<and> is_float64 (Finite 0) \<and> is_nonneg (Finite 0)
   \<and> is_zero (cumsum add64 (map row_volume [row_at 0 1000 (Finite 0) (Finite 10),
       row_at 0 2000 (Finite 0) (Finite 20), row_at 0 3000 (Finite 5) (Finite 30)]) ! 1)
   \<and> snd (vwap float64_ops [row_at 0 1000 (Finite 0) (Finite 10),
       row_at 0 2000 (Finite 0) (Finite 20), row_at 0 3000 (Finite 5) (Finite 30)] ! 1) = NaN
   \<and> map snd (vwap float64_ops [row_at 0 1000 (Finite 0) (Finite 10),
       row_at 0 2000 (Finite 0) (Finite 20), row_at 0 3000 (Finite 5) (Finite 30)])
     = [NaN, NaN, Finite 30]"
proof -
  let ?rows = "[row_at 0 1000 (Finite 0) (Finite 10), row_at 0 2000 (Finite 0) (Finite 20),
       row_at 0 3000 (Finite 5) (Finite 30)]"
  have l: "(1::nat) < length ?rows" by simp
  have f: "is_float64 (Finite 0)" "is_nonneg (Finite 0)"
    by (simp_all add: round64_zero)
  have v: "\<forall>r\<in>set (take (Suc 1) ?rows). is_float64 (row_volume r) \<and> is_nonneg (row_volume r)"
    by (simp add: row_at_def sample_row_def round64_zero)
  have z: "is_zero (cumsum add64 (map row_volume ?rows) ! 1)"
    by (simp add: row_at_def sample_row_def add64_def)
  have az: "\<forall>r\<in>set (take (Suc 1) ?rows). is_zero (row_volume r)"
    by (simp add: row_at_def sample_row_def)
  note w = zero_volume_gives_nan [OF l]
  have "snd (vwap float64_ops ?rows ! 1) = NaN"
    using mp [OF w [THEN conjunct2, THEN conjunct1]] az by blast
  moreover have n: "snd (vwap float64_ops ?rows ! 1) = NaN"
    using mp [OF w [THEN conjunct2, THEN conjunct2, THEN conjunct1]] v z by blast
  from l f z n vwap_0_0_5 show ?thesis by (intro conjI)
qed

end
